theory Spec2Isabelle
  imports Complex_Main "HOL-Library.AList" "HOL-Library.Sublist"
begin

section \<open>Python values and dictionaries\<close>

text \<open>
  The three scripts (\<^verbatim>\<open>musetalk_inference.py\<close>, \<^verbatim>\<open>download_models.py\<close>,
  \<^verbatim>\<open>troubleshooting_fixes.py\<close>) are sequential glue around the filesystem, the network
  and subprocesses. Their Python values are integers, strings and one float; a dictionary
  is an association list in insertion order, as Python keeps it. What the scripts print is
  not part of the model: every message is taken to reach standard output.
\<close>

datatype pyval = PInt int | PStr string | PFloat real

type_synonym pydict = "(string \<times> pyval) list"

text \<open>The nested dictionary handed to \<^verbatim>\<open>OmegaConf.create\<close>: task entries by key.\<close>

type_synonym config = "(string \<times> pydict) list"

text \<open>\<^verbatim>\<open>{**a, **b}\<close>: the keys of \<open>a\<close> keep their place and take the value of \<open>b\<close>
  where \<open>b\<close> has one; the new keys of \<open>b\<close> follow in the order of \<open>b\<close>.\<close>

definition dict_merge :: "pydict \<Rightarrow> pydict \<Rightarrow> pydict" where
  "dict_merge a b = fold (\<lambda>(k, v). AList.update k v) b a"

datatype exc =
    KeyError string
  | FileNotFoundError
  | FileExistsError
  | NotADirectoryError
  | IsADirectoryError
  | PermissionError
  | SameFileError
  | CalledProcessError
  | ImportError
  | RequestException
  | RuntimeError
  | TypeError
  | GrammarParseError
  | UnicodeDecodeError
  | UnicodeEncodeError

text \<open>\<^verbatim>\<open>d[k]\<close> raises \<^verbatim>\<open>KeyError\<close> on a missing key.\<close>

definition getitem :: "pydict \<Rightarrow> string \<Rightarrow> exc + pyval" where
  "getitem d k = (case map_of d k of None \<Rightarrow> Inl (KeyError k) | Some v \<Rightarrow> Inr v)"

section \<open>Paths\<close>

text \<open>
  \<^verbatim>\<open>posixpath.dirname\<close>, \<^verbatim>\<open>basename\<close> and \<^verbatim>\<open>join\<close>, as the standard library
  computes them on the spelling of a path. \<^verbatim>\<open>s.endswith(x)\<close> is \<^term>\<open>suffix x s\<close> and
  \<^verbatim>\<open>x in s\<close> on strings is \<^term>\<open>sublist x s\<close>.
\<close>

definition dirname :: "string \<Rightarrow> string" where
  "dirname p =
     (if rev (dropWhile (\<lambda>c. c \<noteq> CHR ''/'') (rev p)) \<noteq> []
         \<and> \<not> list_all (\<lambda>c. c = CHR ''/'') (rev (dropWhile (\<lambda>c. c \<noteq> CHR ''/'') (rev p)))
      then rev (dropWhile (\<lambda>c. c = CHR ''/'') (dropWhile (\<lambda>c. c \<noteq> CHR ''/'') (rev p)))
      else rev (dropWhile (\<lambda>c. c \<noteq> CHR ''/'') (rev p)))"

definition basename :: "string \<Rightarrow> string" where
  "basename p = rev (takeWhile (\<lambda>c. c \<noteq> CHR ''/'') (rev p))"

definition join :: "string \<Rightarrow> string \<Rightarrow> string" where
  "join a b =
     (if prefix ''/'' b then b
      else if a = [] \<or> last a = CHR ''/'' then a @ b
      else a @ ''/'' @ b)"

section \<open>The filesystem, the environment and the world\<close>

text \<open>
  The filesystem is an association list from path spellings to nodes, in creation order
  (the order a directory listing returns). A path is identified by its spelling: the
  model does not resolve \<^verbatim>\<open>.\<close>, \<^verbatim>\<open>..\<close>, doubled slashes or links. The root \<^verbatim>\<open>/\<close>
  always exists; a relative path with no directory part lies in the working directory,
  which always exists; the empty path names nothing.
\<close>

datatype node = File string | Dir

type_synonym fsys = "(string \<times> node) list"

definition path_exists :: "fsys \<Rightarrow> string \<Rightarrow> bool" where
  "path_exists f p = (p \<noteq> [] \<and> (p = ''/'' \<or> map_of f p \<noteq> None))"

definition isdir :: "fsys \<Rightarrow> string \<Rightarrow> bool" where
  "isdir f p = (p \<noteq> [] \<and> (p = ''/'' \<or> map_of f p = Some Dir))"

definition parent_ok :: "fsys \<Rightarrow> string \<Rightarrow> bool" where
  "parent_ok f p = (dirname p = [] \<or> isdir f (dirname p))"

text \<open>The entries directly inside directory \<open>d\<close>, by name, in listing order.\<close>

definition children :: "fsys \<Rightarrow> string \<Rightarrow> (string \<times> node) list" where
  "children f d =
     map (\<lambda>(p, n). (basename p, n))
       (filter (\<lambda>(p, n). basename p \<noteq> [] \<and> join d (basename p) = p) f)"

definition subdirs :: "fsys \<Rightarrow> string \<Rightarrow> string list" where
  "subdirs f d = map fst (filter (\<lambda>(nm, n). n = Dir) (children f d))"

definition subfiles :: "fsys \<Rightarrow> string \<Rightarrow> string list" where
  "subfiles f d = map fst (filter (\<lambda>(nm, n). n \<noteq> Dir) (children f d))"

text \<open>
  What the scripts cannot decide themselves is the environment: which paths the
  operating system refuses to create, open, list or remove (\<open>denied\<close>), what a spawned
  program does to the filesystem and how it exits (\<open>spawn\<close>), what the network answers
  (\<open>http\<close>), whether PyTorch imports (\<open>torch\<close>), the text OmegaConf and \<^verbatim>\<open>str\<close>
  produce for a config and a float, which strings the interpolation parser of OmegaConf
  rejects (\<open>grammar_rejects\<close>), how the locale's codec reads the bytes a program
  printed, if it can (\<open>decode\<close>), and which texts it can write to a file (\<open>encodes\<close>).
\<close>

datatype proc = NotStarted | Completed int string string

datatype response = Refused | Stream "string list" bool

datatype probe = TorchMissing | TorchWorks | TorchRaises

record env =
  denied :: "string \<Rightarrow> bool"
  spawn :: "string list \<Rightarrow> fsys \<Rightarrow> proc \<times> fsys"
  http :: "string \<Rightarrow> response"
  torch :: probe
  yaml_dump :: "config \<Rightarrow> string"
  float_str :: "real \<Rightarrow> string"
  sys_executable :: string
  grammar_rejects :: "string \<Rightarrow> bool"
  decode :: "string \<Rightarrow> string option"
  encodes :: "string \<Rightarrow> bool"

text \<open>
  The state the scripts change: the filesystem, and two ghost traces that record, in
  order, the argument vector of every program that was run and the (url, path) of every
  call of \<^verbatim>\<open>download_file\<close>.
\<close>

record world =
  fs :: fsys
  procs :: "string list list"
  fetched :: "(string \<times> string) list"

text \<open>A computation takes the world and returns a value or a raised exception, and the
  world as it is then.\<close>

type_synonym 'a io = "world \<Rightarrow> (exc + 'a) \<times> world"

definition io_return :: "'a \<Rightarrow> 'a io" where
  "io_return x = (\<lambda>w. (Inr x, w))"

definition io_raise :: "exc \<Rightarrow> 'a io" where
  "io_raise e = (\<lambda>w. (Inl e, w))"

definition io_bind :: "'a io \<Rightarrow> ('a \<Rightarrow> 'b io) \<Rightarrow> 'b io" where
  "io_bind m k = (\<lambda>w. case m w of (Inl e, w') \<Rightarrow> (Inl e, w') | (Inr x, w') \<Rightarrow> k x w')"

text \<open>\<^verbatim>\<open>try: m  except Exception as e: h(e)\<close>; every exception modelled is an
  \<^verbatim>\<open>Exception\<close>.\<close>

definition io_try :: "'a io \<Rightarrow> (exc \<Rightarrow> 'a io) \<Rightarrow> 'a io" where
  "io_try m h = (\<lambda>w. case m w of (Inl e, w') \<Rightarrow> h e w' | (Inr x, w') \<Rightarrow> (Inr x, w'))"

definition io_lift :: "exc + 'a \<Rightarrow> 'a io" where
  "io_lift r = (\<lambda>w. (r, w))"

text \<open>\<^verbatim>\<open>for x in xs: body(x)\<close>: an exception leaves the loop.\<close>

fun io_foreach :: "'a list \<Rightarrow> ('a \<Rightarrow> unit io) \<Rightarrow> unit io" where
  "io_foreach [] body = io_return ()"
| "io_foreach (x # xs) body = io_bind (body x) (\<lambda>_. io_foreach xs body)"

section \<open>Operating-system primitives\<close>

definition mkdir :: "env \<Rightarrow> string \<Rightarrow> unit io" where
  "mkdir ev p = (\<lambda>w.
     if p = [] then (Inl FileNotFoundError, w)
     else if path_exists (fs w) p then (Inl FileExistsError, w)
     else if \<not> parent_ok (fs w) p then
       (Inl (if path_exists (fs w) (dirname p) then NotADirectoryError else FileNotFoundError), w)
     else if denied ev p then (Inl PermissionError, w)
     else (Inr (), w\<lparr>fs := fs w @ [(p, Dir)]\<rparr>))"

text \<open>The last step of \<^verbatim>\<open>os.makedirs(name, exist_ok=True)\<close>: \<^verbatim>\<open>mkdir\<close>, whose error is
  dropped when the directory is there.\<close>

definition mkdir_exist_ok :: "env \<Rightarrow> string \<Rightarrow> unit io" where
  "mkdir_exist_ok ev name =
     io_try (mkdir ev name)
       (\<lambda>e w. if isdir (fs w) name then (Inr (), w) else (Inl e, w))"

text \<open>\<^verbatim>\<open>os.path.split\<close>, applied twice when the name ends in a slash, as \<^verbatim>\<open>makedirs\<close>
  does.\<close>

definition split_head :: "string \<Rightarrow> string" where
  "split_head name = (if basename name = [] then dirname (dirname name) else dirname name)"

definition split_tail :: "string \<Rightarrow> string" where
  "split_tail name = (if basename name = [] then basename (dirname name) else basename name)"

lemma length_dirname_drop:
  "length (dirname p) \<le> length (dropWhile (\<lambda>c. c \<noteq> CHR ''/'') (rev p))"
  using length_dropWhile_le [of "\<lambda>c. c = CHR ''/''" "dropWhile (\<lambda>c. c \<noteq> CHR ''/'') (rev p)"]
  by (simp add: dirname_def)

lemma length_take_drop_rev:
  "length (takeWhile P (rev p)) + length (dropWhile P (rev p)) = length p"
proof -
  have "length (takeWhile P (rev p) @ dropWhile P (rev p)) = length (rev p)"
    by (simp only: takeWhile_dropWhile_id)
  then show ?thesis by (simp only: length_append length_rev)
qed

lemma length_dirname_le: "length (dirname p) \<le> length p"
  using length_dirname_drop [of p] length_take_drop_rev [of "\<lambda>c. c \<noteq> CHR ''/''" p]
  by linarith

lemma length_dirname_less: "basename p \<noteq> [] \<Longrightarrow> length (dirname p) < length p"
proof -
  assume nb: "basename p \<noteq> []"
  have "takeWhile (\<lambda>c. c \<noteq> CHR ''/'') (rev p) \<noteq> []"
    using nb by (simp add: basename_def)
  then have "0 < length (takeWhile (\<lambda>c. c \<noteq> CHR ''/'') (rev p))"
    by simp
  then show ?thesis
    using length_dirname_drop [of p] length_take_drop_rev [of "\<lambda>c. c \<noteq> CHR ''/''" p]
    by linarith
qed

lemma length_split_head_less: "split_tail name \<noteq> [] \<Longrightarrow> length (split_head name) < length name"
  using length_dirname_less [of name] length_dirname_less [of "dirname name"]
    length_dirname_le [of name]
  by (auto simp: split_head_def split_tail_def split: if_splits)

text \<open>\<^verbatim>\<open>os.makedirs(name, exist_ok=True)\<close>: the missing parent first (a
  \<^verbatim>\<open>FileExistsError\<close> from it is passed over), then the directory itself.\<close>

function makedirs :: "env \<Rightarrow> string \<Rightarrow> unit io" where
  "makedirs ev name w =
     (if split_head name \<noteq> [] \<and> split_tail name \<noteq> [] \<and> \<not> path_exists (fs w) (split_head name)
      then (case makedirs ev (split_head name) w of
              (Inl e, w') \<Rightarrow>
                if e = FileExistsError then mkdir_exist_ok ev name w' else (Inl e, w')
            | (Inr u, w') \<Rightarrow> mkdir_exist_ok ev name w')
      else mkdir_exist_ok ev name w)"
  by pat_completeness auto
termination
  by (relation "measure (\<lambda>(ev, name, w). length name)") (auto simp: length_split_head_less)

text \<open>\<^verbatim>\<open>open(p, "w")\<close>, one \<^verbatim>\<open>write\<close> and the close: the file is created or replaced.\<close>

definition write_file :: "env \<Rightarrow> string \<Rightarrow> string \<Rightarrow> unit io" where
  "write_file ev p c = (\<lambda>w.
     if p = [] then (Inl FileNotFoundError, w)
     else if isdir (fs w) p \<or> basename p = [] then (Inl IsADirectoryError, w)
     else if \<not> parent_ok (fs w) p then
       (Inl (if path_exists (fs w) (dirname p) then NotADirectoryError else FileNotFoundError), w)
     else if denied ev p then (Inl PermissionError, w)
     else (Inr (), w\<lparr>fs := AList.update p (File c) (fs w)\<rparr>))"

text \<open>\<^verbatim>\<open>f.write(chunk)\<close> on the open file at \<open>p\<close>.\<close>

definition append_file :: "string \<Rightarrow> string \<Rightarrow> unit io" where
  "append_file p c = (\<lambda>w.
     (Inr (), w\<lparr>fs := AList.update p
        (File (case map_of (fs w) p of Some (File old) \<Rightarrow> old @ c | _ \<Rightarrow> c)) (fs w)\<rparr>))"

definition remove :: "env \<Rightarrow> string \<Rightarrow> unit io" where
  "remove ev p = (\<lambda>w.
     if \<not> path_exists (fs w) p then (Inl FileNotFoundError, w)
     else if isdir (fs w) p then (Inl IsADirectoryError, w)
     else if denied ev p then (Inl PermissionError, w)
     else (Inr (), w\<lparr>fs := AList.delete p (fs w)\<rparr>))"

definition listdir :: "env \<Rightarrow> string \<Rightarrow> string list io" where
  "listdir ev d = (\<lambda>w.
     if \<not> path_exists (fs w) d then (Inl FileNotFoundError, w)
     else if \<not> isdir (fs w) d then (Inl NotADirectoryError, w)
     else if denied ev d then (Inl PermissionError, w)
     else (Inr (map fst (children (fs w) d)), w))"

definition getsize :: "string \<Rightarrow> nat io" where
  "getsize p = (\<lambda>w.
     if \<not> path_exists (fs w) p then (Inl FileNotFoundError, w)
     else (Inr (case map_of (fs w) p of Some (File c) \<Rightarrow> length c | _ \<Rightarrow> 4096), w))"

definition chmod :: "env \<Rightarrow> string \<Rightarrow> unit io" where
  "chmod ev p = (\<lambda>w.
     if \<not> path_exists (fs w) p then (Inl FileNotFoundError, w)
     else if denied ev p then (Inl PermissionError, w)
     else (Inr (), w))"

text \<open>\<^verbatim>\<open>shutil.copy(src, dst)\<close> and \<^verbatim>\<open>shutil.copy2\<close>: into the directory when \<open>dst\<close> is
  one; refused when source and destination are the same file.\<close>

definition copy :: "env \<Rightarrow> string \<Rightarrow> string \<Rightarrow> unit io" where
  "copy ev src dst = (\<lambda>w.
     let dst' = (if isdir (fs w) dst then join dst (basename src) else dst) in
     if \<not> path_exists (fs w) src then (Inl FileNotFoundError, w)
     else if src = dst' then (Inl SameFileError, w)
     else (case map_of (fs w) src of
             Some (File c) \<Rightarrow>
               if denied ev src then (Inl PermissionError, w) else write_file ev dst' c w
           | _ \<Rightarrow> (Inl IsADirectoryError, w)))"

text \<open>
  \<^verbatim>\<open>subprocess.run(argv, check=..., capture_output=True, text=..., cwd=...)\<close>: the
  program is not started when the working directory is missing or the executable cannot
  be run; otherwise it runs to its end and changes the filesystem as the environment
  says. With \<^verbatim>\<open>text=True\<close> the captured bytes are then decoded, standard output first, and
  bytes the codec cannot read raise \<^verbatim>\<open>UnicodeDecodeError\<close>; after that, with
  \<^verbatim>\<open>check=True\<close>, a non-zero exit raises \<^verbatim>\<open>CalledProcessError\<close>. An empty \<open>cwd\<close> stands
  for no \<^verbatim>\<open>cwd\<close> argument.
\<close>

definition subprocess_run ::
  "env \<Rightarrow> bool \<Rightarrow> bool \<Rightarrow> string \<Rightarrow> string list \<Rightarrow> (int \<times> string \<times> string) io" where
  "subprocess_run ev check text cwd argv = (\<lambda>w.
     if cwd \<noteq> [] \<and> \<not> isdir (fs w) cwd then (Inl FileNotFoundError, w)
     else (case spawn ev argv (fs w) of
             (NotStarted, f') \<Rightarrow> (Inl FileNotFoundError, w)
           | (Completed rc out err, f') \<Rightarrow>
               (let w' = w\<lparr>fs := f', procs := procs w @ [argv]\<rparr>;
                    stdout = (if text then decode ev out else Some out);
                    stderr = (if text then decode ev err else Some err)
                in case (stdout, stderr) of
                     (Some so, Some se) \<Rightarrow>
                       if check \<and> rc \<noteq> 0 then (Inl CalledProcessError, w')
                       else (Inr (rc, so, se), w')
                   | _ \<Rightarrow> (Inl UnicodeDecodeError, w'))))"

subsection \<open>\<^verbatim>\<open>os.walk\<close>\<close>

definition maxlen :: "fsys \<Rightarrow> nat" where
  "maxlen f = foldr (\<lambda>(p, n) m. max (length p) m) f 0"

lemma length_le_maxlen: "(p, n) \<in> set f \<Longrightarrow> length p \<le> maxlen f"
  unfolding maxlen_def by (induction f) auto

lemma basename_no_slash: "CHR ''/'' \<notin> set (basename p)"
  using set_takeWhileD [of "CHR ''/''" "\<lambda>c. c \<noteq> CHR ''/''" "rev p"]
  by (auto simp: basename_def)

lemma join_basename: "basename p \<noteq> [] \<Longrightarrow> join d (basename p) = d @ basename p \<or> join d (basename p) = d @ ''/'' @ basename p"
proof -
  assume nb: "basename p \<noteq> []"
  have "hd (basename p) \<in> set (basename p)" using nb by simp
  then have "hd (basename p) \<noteq> CHR ''/''" using basename_no_slash [of p] by metis
  then have "\<not> prefix ''/'' (basename p)" using nb by (cases "basename p") auto
  then show ?thesis by (simp add: join_def)
qed

lemma children_entry:
  "(nm, n) \<in> set (children f d) \<Longrightarrow> nm \<noteq> [] \<and> (join d nm, n) \<in> set f \<and> (\<exists>p. nm = basename p)"
  by (auto simp: children_def)

lemma subdirs_step:
  assumes "nm \<in> set (subdirs f d)"
  shows "length d < length (join d nm) \<and> length (join d nm) \<le> maxlen f"
proof -
  from assms obtain n where c: "(nm, n) \<in> set (children f d)"
    by (auto simp: subdirs_def)
  from children_entry [OF c] obtain p where
    ne: "nm \<noteq> []" and mem: "(join d nm, n) \<in> set f" and nm: "nm = basename p" by blast
  have "join d nm = d @ nm \<or> join d nm = d @ ''/'' @ nm"
    using join_basename [of p d] ne nm by simp
  then have "length d < length (join d nm)" using ne by auto
  then show ?thesis using length_le_maxlen [OF mem] by simp
qed

text \<open>\<^verbatim>\<open>os.walk(top)\<close>, top-down: the triple of a directory, then the walks of its
  subdirectories in listing order. A directory that cannot be listed yields nothing
  (\<^verbatim>\<open>onerror\<close> is not given).\<close>

function walk :: "env \<Rightarrow> fsys \<Rightarrow> string \<Rightarrow> (string \<times> string list \<times> string list) list" where
  "walk ev f dir =
     (if \<not> isdir f dir \<or> denied ev dir then []
      else (dir, subdirs f dir, subfiles f dir)
             # concat (map (\<lambda>d. walk ev f (join dir d)) (subdirs f dir)))"
  by pat_completeness auto
termination
proof (relation "measure (\<lambda>(ev, f, d). Suc (maxlen f) - length d)")
  show "wf (measure (\<lambda>(ev, f, d). Suc (maxlen f) - length d))" by simp
next
  fix ev :: env and f :: fsys and dir x :: string
  assume "x \<in> set (subdirs f dir)"
  from subdirs_step [OF this]
  have "Suc (maxlen f) - length (join dir x) < Suc (maxlen f) - length dir"
    by linarith
  then show "((ev, f, join dir x), ev, f, dir) \<in> measure (\<lambda>(ev, f, d). Suc (maxlen f) - length d)"
    by simp
qed

declare walk.simps [simp del]
declare makedirs.simps [simp del]

definition os_walk :: "env \<Rightarrow> string \<Rightarrow> (string \<times> string list \<times> string list) list io" where
  "os_walk ev dir = (\<lambda>w. (Inr (walk ev (fs w) dir), w))"

subsection \<open>\<^verbatim>\<open>str\<close>\<close>

fun str_nat :: "nat \<Rightarrow> string" where
  "str_nat n =
     (if n < 10 then [char_of (48 + n)] else str_nat (n div 10) @ [char_of (48 + n mod 10)])"

declare str_nat.simps [simp del]

definition py_str :: "env \<Rightarrow> pyval \<Rightarrow> string" where
  "py_str ev v =
     (case v of
        PInt i \<Rightarrow> (if i < 0 then CHR ''-'' # str_nat (nat (- i)) else str_nat (nat i))
      | PStr s \<Rightarrow> s
      | PFloat r \<Rightarrow> float_str ev r)"

section \<open>The inference orchestrator: parameters and config\<close>

text \<open>\<^verbatim>\<open>MuseTalkInference.__init__\<close>: the default parameters.\<close>

definition default_params :: pydict where
  "default_params =
     [(''bbox_shift'', PInt 0),
      (''batch_size'', PInt 4),
      (''fps'', PInt 25),
      (''version'', PStr ''v15''),
      (''expression_scale'', PFloat 1.0)]"

text \<open>
  \<^verbatim>\<open>OmegaConf.create\<close> wraps every value of the dictionary in a node. A string value that
  holds \<^verbatim>\<open>${\<close> is parsed as an interpolation at once, and one the parser rejects (an
  interpolation that is never closed, say) raises \<^verbatim>\<open>GrammarParseError\<close>; other strings,
  integers and floats are taken as they are.
\<close>

definition bad_interpolation :: "env \<Rightarrow> pyval \<Rightarrow> bool" where
  "bad_interpolation ev v =
     (case v of PStr s \<Rightarrow> sublist ''${'' s \<and> grammar_rejects ev s | _ \<Rightarrow> False)"

definition omegaconf_create :: "env \<Rightarrow> config \<Rightarrow> exc + config" where
  "omegaconf_create ev d =
     (if list_ex (\<lambda>(task, entry). list_ex (\<lambda>(k, v). bad_interpolation ev v) entry) d
      then Inl GrammarParseError
      else Inr d)"

text \<open>\<^verbatim>\<open>create_config\<close>, lines 23 to 38.\<close>

definition create_config ::
  "env \<Rightarrow> string \<Rightarrow> string \<Rightarrow> pydict \<Rightarrow> exc + (config \<times> pydict)" where
  "create_config ev video_path audio_path kwargs =
     (let params = dict_merge default_params kwargs in
      case getitem params ''bbox_shift'' of
        Inl e \<Rightarrow> Inl e
      | Inr bbox_shift \<Rightarrow>
          (case omegaconf_create ev
                  [(''task1'',
                    [(''video_path'', PStr video_path),
                     (''audio_path'', PStr audio_path),
                     (''bbox_shift'', bbox_shift),
                     (''result_name'', PStr ''lipsync_output.mp4'')])] of
             Inl e \<Rightarrow> Inl e
           | Inr config \<Rightarrow> Inr (config, params)))"

section \<open>The inference orchestrator: \<^verbatim>\<open>run_inference\<close>\<close>

text \<open>\<^verbatim>\<open>OmegaConf.save(config, path)\<close> writes the YAML text of the config to the path.\<close>

definition omegaconf_save :: "env \<Rightarrow> config \<Rightarrow> string \<Rightarrow> unit io" where
  "omegaconf_save ev cfg path = write_file ev path (yaml_dump ev cfg)"

text \<open>Lines 89 to 93, one round of the cleanup loop: a name ending in \<^verbatim>\<open>.mp4\<close> without
  \<^verbatim>\<open>temp\<close> in it is removed from the output directory; a failing removal is passed
  over.\<close>

definition clean_one :: "env \<Rightarrow> string \<Rightarrow> string \<Rightarrow> unit io" where
  "clean_one ev output_dir f =
     (if suffix ''.mp4'' f \<and> \<not> sublist ''temp'' f
      then io_try (remove ev (join output_dir f)) (\<lambda>e. io_return ())
      else io_return ())"

text \<open>Lines 87 to 93: the loop over the listing of the output directory.\<close>

definition clean_old_outputs :: "env \<Rightarrow> string \<Rightarrow> unit io" where
  "clean_old_outputs ev output_dir =
     io_bind (listdir ev output_dir) (\<lambda>names. io_foreach names (clean_one ev output_dir))"

text \<open>Lines 107 to 112: the full paths of the media files of the walk.\<close>

definition is_media :: "string \<Rightarrow> bool" where
  "is_media file = ((suffix ''.mp4'' file \<or> suffix ''.avi'' file) \<and> \<not> sublist ''temp'' file)"

definition collect_outputs :: "(string \<times> string list \<times> string list) list \<Rightarrow> string list" where
  "collect_outputs triples =
     concat (map (\<lambda>(root, dirs, files). map (join root) (filter is_media files)) triples)"

text \<open>Lines 116 to 120: the first path with a result marker in it, else the first
  path.\<close>

definition has_marker :: "string \<Rightarrow> bool" where
  "has_marker f = (sublist ''lipsync_output'' f \<or> sublist ''task1'' f)"

definition pick_target :: "string \<Rightarrow> string list \<Rightarrow> string" where
  "pick_target first output_files =
     (case find has_marker output_files of Some f \<Rightarrow> f | None \<Rightarrow> first)"

text \<open>Lines 65 to 69: the config directory is made and the config saved there.\<close>

definition save_config :: "env \<Rightarrow> config \<Rightarrow> unit io" where
  "save_config ev cfg =
     io_bind (makedirs ev ''configs/inference'') (\<lambda>_.
       omegaconf_save ev cfg (join ''configs/inference'' ''inference.yaml''))"

text \<open>Lines 106 to 136: the scan of the result directory, the choice and the copy.\<close>

definition deliver_output :: "env \<Rightarrow> string \<Rightarrow> bool io" where
  "deliver_output ev output_path =
     io_bind (os_walk ev (dirname output_path)) (\<lambda>triples.
       case collect_outputs triples of
         [] \<Rightarrow> io_return False
       | first # rest \<Rightarrow>
           io_bind (copy ev (pick_target first (first # rest)) output_path) (\<lambda>_.
           io_bind (getsize output_path) (\<lambda>size_mb.
           io_return True)))"

text \<open>Line 96: the external program is run in \<^verbatim>\<open>/app\<close>, its output captured as text.
  \<^verbatim>\<open>subprocess.run\<close> raises \<^verbatim>\<open>TypeError\<close> on an argument that is not a string, which
  the version tag is when the caller overrides it with a number.\<close>

definition run_command :: "env \<Rightarrow> pyval \<Rightarrow> string list \<Rightarrow> (int \<times> string \<times> string) io" where
  "run_command ev version cmd =
     (case version of
        PStr s \<Rightarrow> subprocess_run ev False True ''/app'' cmd
      | _ \<Rightarrow> io_raise TypeError)"

text \<open>The body of the \<^verbatim>\<open>try\<close> block, lines 86 to 136.\<close>

definition inference_steps :: "env \<Rightarrow> string list \<Rightarrow> pyval \<Rightarrow> string \<Rightarrow> bool io" where
  "inference_steps ev cmd version output_path =
     io_bind (clean_old_outputs ev (dirname output_path)) (\<lambda>_.
     io_bind (run_command ev version cmd) (\<lambda>result.
     deliver_output ev output_path))"

text \<open>The argument vector of lines 72 to 83.\<close>

definition inference_cmd :: "env \<Rightarrow> string \<Rightarrow> pyval \<Rightarrow> pyval \<Rightarrow> pyval \<Rightarrow> string list" where
  "inference_cmd ev output_path version batch_size fps =
     [''python'', ''-m'', ''scripts.inference'',
      ''--inference_config'', join ''configs/inference'' ''inference.yaml'',
      ''--result_dir'', dirname output_path,
      ''--unet_model_path'', ''models/musetalkV15/unet.pth'',
      ''--unet_config'', ''models/musetalkV15/musetalk.json'',
      ''--version'', py_str ev version,
      ''--ffmpeg_path'', ''/usr/bin/ffmpeg'',
      ''--whisper_dir'', ''./models/whisper'',
      ''--batch_size'', py_str ev batch_size,
      ''--fps'', py_str ev fps]"

definition run_inference :: "env \<Rightarrow> string \<Rightarrow> string \<Rightarrow> string \<Rightarrow> pydict \<Rightarrow> bool io" where
  "run_inference ev video_path audio_path output_path kwargs = (\<lambda>w.
     if \<not> path_exists (fs w) video_path then (Inr False, w)
     else if \<not> path_exists (fs w) audio_path then (Inr False, w)
     else
       io_bind (io_lift (create_config ev video_path audio_path kwargs)) (\<lambda>(cfg, params).
       io_bind (io_lift (getitem params ''bbox_shift'')) (\<lambda>_.
       io_bind (io_lift (getitem params ''batch_size'')) (\<lambda>_.
       io_bind (save_config ev cfg) (\<lambda>_.
       io_bind (io_lift (getitem params ''version'')) (\<lambda>version.
       io_bind (io_lift (getitem params ''batch_size'')) (\<lambda>batch_size.
       io_bind (io_lift (getitem params ''fps'')) (\<lambda>fps.
       io_try
         (inference_steps ev (inference_cmd ev output_path version batch_size fps)
            version output_path)
         (\<lambda>e. io_return False)))))))) w)"


section \<open>The model provisioner (\<^verbatim>\<open>download_models.py\<close>)\<close>

text \<open>
  \<^verbatim>\<open>download_file\<close>: the directory is made outside the \<^verbatim>\<open>try\<close>; inside it the request
  is sent, the target opened for writing (created or truncated) and every non-empty chunk
  written. A \<open>Refused\<close> answer raises before the file is opened; a \<open>Stream\<close> with the flag
  set raises after its chunks were written. Leaving the \<^verbatim>\<open>with\<close> block closes the file and
  keeps what was written. The first step records the call in the ghost trace.
\<close>

definition download_file :: "env \<Rightarrow> string \<Rightarrow> string \<Rightarrow> string \<Rightarrow> bool io" where
  "download_file ev url filepath description = (\<lambda>w.
     io_bind (makedirs ev (dirname filepath)) (\<lambda>_.
       io_try
         (case http ev url of
            Refused \<Rightarrow> io_raise RequestException
          | Stream chunks broken \<Rightarrow>
              io_bind (write_file ev filepath []) (\<lambda>_.
              io_bind (io_foreach chunks (\<lambda>chunk.
                         if chunk \<noteq> [] then append_file filepath chunk else io_return ())) (\<lambda>_.
              if broken then io_raise RequestException else io_return True)))
         (\<lambda>e. io_return False))
       (w\<lparr>fetched := fetched w @ [(url, filepath)]\<rparr>))"


text \<open>The loop the three download functions share (lines 77 to 83, 111 to 117, 133 to
  138): over (path, url, description), in the dictionary's order.\<close>

fun download_missing :: "env \<Rightarrow> (string \<times> string \<times> string) list \<Rightarrow> bool \<Rightarrow> bool io" where
  "download_missing ev [] success = io_return success"
| "download_missing ev ((filepath, url, description) # rest) success = (\<lambda>w.
     if \<not> path_exists (fs w) filepath
     then io_bind (download_file ev url filepath description)
            (\<lambda>ok. download_missing ev rest (if \<not> ok then False else success)) w
     else download_missing ev rest success w)"

definition musetalk_models :: "(string \<times> string \<times> string) list" where
  "musetalk_models =
     [(''models/musetalkV15/musetalk.json'',
       ''https://huggingface.co/TMElyralab/MuseTalk/resolve/main/musetalkV15/musetalk.json'',
       ''MuseTalk 1.5 config''),
      (''models/musetalkV15/unet.pth'',
       ''https://huggingface.co/TMElyralab/MuseTalk/resolve/main/musetalkV15/unet.pth'',
       ''MuseTalk 1.5 model weights (3.2GB)'')]"

definition manual_download_musetalk :: "env \<Rightarrow> bool io" where
  "manual_download_musetalk ev =
     io_bind (makedirs ev ''models/musetalkV15'') (\<lambda>_.
       download_missing ev musetalk_models True)"

definition other_models :: "(string \<times> string \<times> string) list" where
  "other_models =
     [(''models/dwpose/dw-ll_ucoco_384.pth'',
       ''https://huggingface.co/yzd-v/DWPose/resolve/main/dw-ll_ucoco_384.pth'',
       ''DWPose model''),
      (''models/face-parse-bisent/79999_iter.pth'',
       ''https://huggingface.co/vivym/face-parsing-bisenet/resolve/main/79999_iter.pth'',
       ''Face parsing model''),
      (''models/face-parse-bisent/resnet18-5c106cde.pth'',
       ''https://download.pytorch.org/models/resnet18-5c106cde.pth'',
       ''ResNet-18 backbone''),
      (''models/sd-vae/diffusion_pytorch_model.bin'',
       ''https://huggingface.co/stabilityai/sd-vae-ft-mse/resolve/main/diffusion_pytorch_model.bin'',
       ''Stable Diffusion VAE''),
      (''models/sd-vae/config.json'',
       ''https://huggingface.co/stabilityai/sd-vae-ft-mse/resolve/main/config.json'',
       ''VAE config'')]"

definition download_other_models :: "env \<Rightarrow> bool io" where
  "download_other_models ev = download_missing ev other_models True"

definition whisper_files :: "(string \<times> string) list" where
  "whisper_files =
     [(''config.json'', ''https://huggingface.co/openai/whisper-tiny/resolve/main/config.json''),
      (''preprocessor_config.json'',
       ''https://huggingface.co/openai/whisper-tiny/resolve/main/preprocessor_config.json''),
      (''pytorch_model.bin'',
       ''https://huggingface.co/openai/whisper-tiny/resolve/main/pytorch_model.bin'')]"

definition whisper_models :: "(string \<times> string \<times> string) list" where
  "whisper_models =
     map (\<lambda>(filename, url). (''models/whisper/'' @ filename, url, ''Whisper '' @ filename))
       whisper_files"

definition setup_whisper_models :: "env \<Rightarrow> bool io" where
  "setup_whisper_models ev =
     io_bind (makedirs ev ''models/whisper'') (\<lambda>_.
       download_missing ev whisper_models True)"

text \<open>The verification loops of both scripts: a present file has its size read, an
  absent one is appended to the missing files.\<close>

fun collect_missing :: "string list \<Rightarrow> string list \<Rightarrow> string list io" where
  "collect_missing [] missing_files = io_return missing_files"
| "collect_missing (filepath # rest) missing_files = (\<lambda>w.
     if path_exists (fs w) filepath
     then io_bind (getsize filepath) (\<lambda>sz. collect_missing rest missing_files) w
     else collect_missing rest (missing_files @ [filepath]) w)"



section \<open>The environment repair utility (\<^verbatim>\<open>troubleshooting_fixes.py\<close>)\<close>

definition paths_to_create :: "string list" where
  "paths_to_create = [''models/whisper'', ''models/whisper-tiny'', ''models/openai/whisper-tiny'']"

text \<open>Lines 27 to 35: the three file paths in the first directory that holds
  \<^verbatim>\<open>config.json\<close>; the empty list when none does.\<close>

definition whisper_source_files :: "fsys \<Rightarrow> string list" where
  "whisper_source_files f =
     (case find (\<lambda>check_path. path_exists f (join check_path ''config.json'')) paths_to_create of
        None \<Rightarrow> []
      | Some check_path \<Rightarrow>
          [join check_path ''config.json'',
           join check_path ''preprocessor_config.json'',
           join check_path ''pytorch_model.bin''])"

text \<open>Lines 40 to 48, the body of the inner loop.\<close>

definition copy_if_missing :: "env \<Rightarrow> string \<Rightarrow> string \<Rightarrow> unit io" where
  "copy_if_missing ev target_path src_file = (\<lambda>w.
     if path_exists (fs w) src_file
     then (if \<not> path_exists (fs w) (join target_path (basename src_file))
           then io_try (copy ev src_file (join target_path (basename src_file)))
                  (\<lambda>e. io_return ()) w
           else (Inr (), w))
     else (Inr (), w))"

definition fix_whisper_paths :: "env \<Rightarrow> unit io" where
  "fix_whisper_paths ev =
     io_bind (io_foreach paths_to_create (\<lambda>path. makedirs ev path)) (\<lambda>_. (\<lambda>w.
       (if whisper_source_files (fs w) \<noteq> []
        then io_foreach paths_to_create (\<lambda>target_path.
               io_foreach (whisper_source_files (fs w)) (\<lambda>src_file.
                 copy_if_missing ev target_path src_file))
        else io_return ()) w))"

definition directories :: "string list" where
  "directories =
     [''models/musetalk'', ''models/musetalkV15'', ''models/syncnet'', ''models/dwpose'',
      ''models/face-parse-bisent'', ''models/sd-vae'', ''models/whisper'',
      ''configs/inference'', ''output'', ''input'']"

definition create_missing_directories :: "env \<Rightarrow> unit io" where
  "create_missing_directories ev =
     io_foreach directories (\<lambda>directory w.
       if \<not> path_exists (fs w) directory then makedirs ev directory w else (Inr (), w))"

definition runtime_deps :: "string list" where
  "runtime_deps =
     [''gdown'', ''ffmpeg-python'', ''moviepy'', ''beautifulsoup4'', ''PySocks'', ''librosa'',
      ''imageio[ffmpeg]'']"

text \<open>Only \<^verbatim>\<open>CalledProcessError\<close> is caught here (line 94).\<close>

definition install_missing_dependencies :: "env \<Rightarrow> unit io" where
  "install_missing_dependencies ev =
     io_foreach runtime_deps (\<lambda>dep.
       io_try
         (io_bind (subprocess_run ev True False []
                     [sys_executable ev, ''-m'', ''pip'', ''install'', dep]) (\<lambda>_. io_return ()))
         (\<lambda>e. if e = CalledProcessError then io_return () else io_raise e))"

definition fix_xformers_warnings :: "env \<Rightarrow> unit io" where
  "fix_xformers_warnings ev =
     io_try
       (io_bind (subprocess_run ev False False []
                   [sys_executable ev, ''-m'', ''pip'', ''uninstall'', ''-y'', ''xformers'']) (\<lambda>_.
        io_bind (subprocess_run ev True False []
                   [sys_executable ev, ''-m'', ''pip'', ''install'', ''xformers==0.0.20'',
                    ''--no-deps'']) (\<lambda>_.
        io_return ())))
       (\<lambda>e. io_return ())"

text \<open>Only \<^verbatim>\<open>ImportError\<close> is caught here (line 135); what else the PyTorch calls raise
  is not.\<close>

definition check_gpu_setup :: "env \<Rightarrow> unit io" where
  "check_gpu_setup ev =
     io_try
       (case torch ev of
          TorchMissing \<Rightarrow> io_raise ImportError
        | TorchWorks \<Rightarrow> io_return ()
        | TorchRaises \<Rightarrow> io_raise RuntimeError)
       (\<lambda>e. if e = ImportError then io_return () else io_raise e)"

definition required_files :: "string list" where
  "required_files =
     [''models/musetalkV15/unet.pth'',
      ''models/musetalkV15/musetalk.json'',
      ''models/whisper/config.json'',
      ''models/whisper/preprocessor_config.json'',
      ''models/dwpose/dw-ll_ucoco_384.pth'',
      ''models/face-parse-bisent/79999_iter.pth'',
      ''models/sd-vae/diffusion_pytorch_model.bin'',
      ''models/sd-vae/config.json'']"

definition verify_model_files :: "bool io" where
  "verify_model_files =
     io_bind (collect_missing required_files []) (\<lambda>missing_files.
       if missing_files \<noteq> [] then io_return False else io_return True)"

text \<open>
  \<open>test_script\<close> stands for the program text of lines 172 to 236. Lines 238 to 241:
  \<^verbatim>\<open>open\<close> creates or empties the file; \<^verbatim>\<open>f.write\<close> encodes the text with the locale's
  codec, which raises \<^verbatim>\<open>UnicodeEncodeError\<close> on a character it does not have (the text
  holds check marks) and then leaves the file empty; \<^verbatim>\<open>os.chmod\<close> follows.
\<close>

definition create_test_script :: "env \<Rightarrow> string \<Rightarrow> unit io" where
  "create_test_script ev test_script =
     io_bind (write_file ev ''/app/test_setup.py'' []) (\<lambda>f.
     io_bind (if encodes ev test_script
              then append_file ''/app/test_setup.py'' test_script
              else io_raise UnicodeEncodeError) (\<lambda>_.
     chmod ev ''/app/test_setup.py''))"

definition troubleshooting_main :: "env \<Rightarrow> string \<Rightarrow> unit io" where
  "troubleshooting_main ev test_script =
     io_bind (create_missing_directories ev) (\<lambda>_.
     io_bind (install_missing_dependencies ev) (\<lambda>_.
     io_bind (fix_whisper_paths ev) (\<lambda>_.
     io_bind (fix_xformers_warnings ev) (\<lambda>_.
     io_bind (check_gpu_setup ev) (\<lambda>_.
     io_bind verify_model_files (\<lambda>models_ok.
     io_bind (create_test_script ev test_script) (\<lambda>_.
     io_return ())))))))"

text \<open>The script ends after \<^verbatim>\<open>main()\<close>: status 0, or 1 when an exception reached the top
  level.\<close>

definition troubleshooting_exit :: "(exc + unit) \<times> world \<Rightarrow> int" where
  "troubleshooting_exit r = (case fst r of Inl e \<Rightarrow> 1 | Inr u \<Rightarrow> 0)"

section \<open>Example environments and worlds\<close>

text \<open>An environment in which nothing is refused, every program exits with status 1,
  prints nothing and changes nothing, the network refuses every request, PyTorch is not
  installed, the interpolation parser rejects the strings with no closing brace and the
  codec reads every byte and writes every text; and a filesystem with the two inputs of
  an inference call.\<close>

definition quiet_env :: env where
  "quiet_env =
     \<lparr>denied = (\<lambda>p. False),
      spawn = (\<lambda>argv f. (Completed 1 [] [], f)),
      http = (\<lambda>u. Refused),
      torch = TorchMissing,
      yaml_dump = (\<lambda>c. ''task1: {}''),
      float_str = (\<lambda>r. ''1.0''),
      sys_executable = ''/usr/bin/python3'',
      grammar_rejects = (\<lambda>s. \<not> sublist ''}'' s),
      decode = Some,
      encodes = (\<lambda>s. True)\<rparr>"

definition inputs_fs :: fsys where
  "inputs_fs = [(''/in'', Dir), (''/in/v.mp4'', File ''V''), (''/in/a.wav'', File ''W'')]"

definition world_of :: "fsys \<Rightarrow> world" where
  "world_of f = \<lparr>fs = f, procs = [], fetched = []\<rparr>"

text \<open>A result directory whose own path contains the task identifier, and a program that
  leaves three files in it; and a result directory that already holds three files.\<close>

definition task1_env :: env where
  "task1_env =
     quiet_env\<lparr>spawn := (\<lambda>argv f.
       (Completed 0 [] [],
        f @ [(''/data/task1/a.mp4'', File ''A''),
             (''/data/task1/b_temp.mp4'', File ''B''),
             (''/data/task1/lipsync_output.mp4'', File ''L'')]))\<rparr>"

definition task1_fs :: fsys where
  "task1_fs = inputs_fs @ [(''/app'', Dir), (''/data'', Dir), (''/data/task1'', Dir)]"

definition results_fs :: fsys where
  "results_fs =
     [(''/app'', Dir), (''/app/output'', Dir),
      (''/app/output/a.mp4'', File ''A''),
      (''/app/output/b_temp.mp4'', File ''B''),
      (''/app/output/lipsync_output.mp4'', File ''L'')]"



text \<open>A model directory in which every artifact but the VAE config is present; a network
  that serves every request in full; and one whose every stream breaks after three
  chunks.\<close>

definition models_fs :: fsys where
  "models_fs =
     [(''models'', Dir),
      (''models/musetalkV15'', Dir),
      (''models/musetalkV15/musetalk.json'', File ''j''),
      (''models/musetalkV15/unet.pth'', File ''u''),
      (''models/dwpose'', Dir),
      (''models/dwpose/dw-ll_ucoco_384.pth'', File ''d''),
      (''models/face-parse-bisent'', Dir),
      (''models/face-parse-bisent/79999_iter.pth'', File ''f''),
      (''models/face-parse-bisent/resnet18-5c106cde.pth'', File ''r''),
      (''models/sd-vae'', Dir),
      (''models/sd-vae/diffusion_pytorch_model.bin'', File ''v''),
      (''models/whisper'', Dir),
      (''models/whisper/config.json'', File ''c''),
      (''models/whisper/preprocessor_config.json'', File ''p''),
      (''models/whisper/pytorch_model.bin'', File ''m'')]"

definition serving_env :: env where
  "serving_env = quiet_env\<lparr>http := (\<lambda>u. Stream [''ab'', [], ''cd''] False)\<rparr>"

definition broken_env :: env where
  "broken_env = quiet_env\<lparr>http := (\<lambda>u. Stream [''ab'', [], ''cd''] True)\<rparr>"



section \<open>Parameter merge\<close>

text \<open>
  Claim C5. \<^verbatim>\<open>create_config\<close> with no overrides returns the merged parameters
  \<^verbatim>\<open>bbox_shift=0\<close>, \<^verbatim>\<open>batch_size=4\<close>, \<^verbatim>\<open>fps=25\<close>, \<^verbatim>\<open>version="v15"\<close>,
  \<^verbatim>\<open>expression_scale=1.0\<close>; with the single override \<^verbatim>\<open>bbox_shift=-3\<close> (the
  "natural" preset as the command line resolves it) it returns \<^verbatim>\<open>bbox_shift=-3\<close> and
  every other default unchanged. The merge of line 27 gives these parameters whatever the
  paths are. In both cases the task entry of the config carries the merged
  \<^verbatim>\<open>bbox_shift\<close>, and the call raises in one case only: when OmegaConf rejects the
  interpolation it reads in one of the two paths.
\<close>

theorem create_config_defaults_and_natural:
  "dict_merge default_params [] =
     [(''bbox_shift'', PInt 0), (''batch_size'', PInt 4), (''fps'', PInt 25),
      (''version'', PStr ''v15''), (''expression_scale'', PFloat 1.0)]
   \<and> dict_merge default_params [(''bbox_shift'', PInt (- 3))] =
     [(''bbox_shift'', PInt (- 3)), (''batch_size'', PInt 4), (''fps'', PInt 25),
      (''version'', PStr ''v15''), (''expression_scale'', PFloat 1.0)]
   \<and> create_config ev v a [] =
     (if bad_interpolation ev (PStr v) \<or> bad_interpolation ev (PStr a)
      then Inl GrammarParseError
      else Inr ([(''task1'',
                  [(''video_path'', PStr v), (''audio_path'', PStr a),
                   (''bbox_shift'', PInt 0), (''result_name'', PStr ''lipsync_output.mp4'')])],
                [(''bbox_shift'', PInt 0), (''batch_size'', PInt 4), (''fps'', PInt 25),
                 (''version'', PStr ''v15''), (''expression_scale'', PFloat 1.0)]))
   \<and> create_config ev v a [(''bbox_shift'', PInt (- 3))] =
     (if bad_interpolation ev (PStr v) \<or> bad_interpolation ev (PStr a)
      then Inl GrammarParseError
      else Inr ([(''task1'',
                  [(''video_path'', PStr v), (''audio_path'', PStr a),
                   (''bbox_shift'', PInt (- 3)),
                   (''result_name'', PStr ''lipsync_output.mp4'')])],
                [(''bbox_shift'', PInt (- 3)), (''batch_size'', PInt 4), (''fps'', PInt 25),
                 (''version'', PStr ''v15''), (''expression_scale'', PFloat 1.0)]))"
proof -
  have r: "\<not> bad_interpolation ev (PStr ''lipsync_output.mp4'')"
    by (simp add: bad_interpolation_def sublist_code)
  have i: "\<not> bad_interpolation ev (PInt n)" for n
    by (simp add: bad_interpolation_def)
  show ?thesis
    by (simp add: create_config_def omegaconf_create_def dict_merge_def default_params_def
          getitem_def r i)
qed

text \<open>With the two input paths of the example filesystem, which hold no \<^verbatim>\<open>${\<close>, both
  calls return.\<close>

theorem create_config_defaults_and_natural_witness:
  "create_config quiet_env ''/in/v.mp4'' ''/in/a.wav'' [] =
     Inr ([(''task1'',
            [(''video_path'', PStr ''/in/v.mp4''), (''audio_path'', PStr ''/in/a.wav''),
             (''bbox_shift'', PInt 0), (''result_name'', PStr ''lipsync_output.mp4'')])],
          [(''bbox_shift'', PInt 0), (''batch_size'', PInt 4), (''fps'', PInt 25),
           (''version'', PStr ''v15''), (''expression_scale'', PFloat 1.0)])
   \<and> create_config quiet_env ''/in/v.mp4'' ''/in/a.wav'' [(''bbox_shift'', PInt (- 3))] =
     Inr ([(''task1'',
            [(''video_path'', PStr ''/in/v.mp4''), (''audio_path'', PStr ''/in/a.wav''),
             (''bbox_shift'', PInt (- 3)), (''result_name'', PStr ''lipsync_output.mp4'')])],
          [(''bbox_shift'', PInt (- 3)), (''batch_size'', PInt 4), (''fps'', PInt 25),
           (''version'', PStr ''v15''), (''expression_scale'', PFloat 1.0)])"
proof -
  have v: "\<not> bad_interpolation quiet_env (PStr ''/in/v.mp4'')" by code_simp
  have a: "\<not> bad_interpolation quiet_env (PStr ''/in/a.wav'')" by code_simp
  from create_config_defaults_and_natural
         [where ev = quiet_env and v = "''/in/v.mp4''" and a = "''/in/a.wav''"] v a
  show ?thesis by simp
qed

section \<open>Input validation\<close>

text \<open>
  Claim C1. When \<^verbatim>\<open>video_path\<close> or \<^verbatim>\<open>audio_path\<close> does not exist, \<^verbatim>\<open>run_inference\<close>
  returns \<^verbatim>\<open>False\<close> and leaves the world as it was: the filesystem is the same (no
  config file written, nothing deleted in the output directory) and no program was run.
\<close>

theorem run_inference_missing_input:
  assumes "\<not> path_exists (fs w) video_path \<or> \<not> path_exists (fs w) audio_path"
  shows "run_inference ev video_path audio_path output_path kwargs w = (Inr False, w)"
  using assms by (auto simp: run_inference_def)

theorem run_inference_missing_input_witness:
  "path_exists (fs (world_of inputs_fs)) ''/in/v.mp4''
   \<and> \<not> path_exists (fs (world_of inputs_fs)) ''/in/none.wav''
   \<and> run_inference quiet_env ''/in/v.mp4'' ''/in/none.wav'' ''/app/output/r.mp4'' []
         (world_of inputs_fs) = (Inr False, world_of inputs_fs)"
proof -
  have a: "\<not> path_exists (fs (world_of inputs_fs)) ''/in/none.wav''"
    by (simp add: world_of_def inputs_fs_def path_exists_def)
  have b: "path_exists (fs (world_of inputs_fs)) ''/in/v.mp4''"
    by (simp add: world_of_def inputs_fs_def path_exists_def)
  from a have "\<not> path_exists (fs (world_of inputs_fs)) ''/in/v.mp4''
      \<or> \<not> path_exists (fs (world_of inputs_fs)) ''/in/none.wav''" ..
  from run_inference_missing_input [OF this] a b show ?thesis by blast
qed

section \<open>Which exceptions \<^verbatim>\<open>run_inference\<close> catches\<close>

lemma dict_merge_keeps: "map_of a k \<noteq> None \<Longrightarrow> map_of (dict_merge a b) k \<noteq> None"
  unfolding dict_merge_def
  by (induction b arbitrary: a) (auto simp: AList.update_conv')

lemma getitem_merged:
  assumes "map_of default_params k \<noteq> None"
  shows "\<exists>v. getitem (dict_merge default_params kwargs) k = Inr v"
  using dict_merge_keeps [OF assms, of kwargs] by (auto simp: getitem_def)

lemma default_keys:
  "map_of default_params ''bbox_shift'' \<noteq> None"
  "map_of default_params ''batch_size'' \<noteq> None"
  "map_of default_params ''fps'' \<noteq> None"
  "map_of default_params ''version'' \<noteq> None"
  by (simp_all add: default_params_def)

text \<open>The parameters \<^verbatim>\<open>create_config\<close> returns are the merged ones, and hold every key
  \<^verbatim>\<open>run_inference\<close> reads.\<close>

lemma create_config_params:
  assumes "create_config ev video_path audio_path kwargs = Inr (cfg, params)"
  shows "params = dict_merge default_params kwargs"
  using assms by (auto simp: create_config_def Let_def split: sum.splits)

lemma create_config_items:
  assumes "create_config ev video_path audio_path kwargs = Inr (cfg, params)"
  shows "\<exists>bbox_shift version batch_size fps.
           getitem params ''bbox_shift'' = Inr bbox_shift
         \<and> getitem params ''version'' = Inr version
         \<and> getitem params ''batch_size'' = Inr batch_size
         \<and> getitem params ''fps'' = Inr fps"
  unfolding create_config_params [OF assms]
  using getitem_merged [OF default_keys(1), of kwargs]
    getitem_merged [OF default_keys(2), of kwargs]
    getitem_merged [OF default_keys(3), of kwargs]
    getitem_merged [OF default_keys(4), of kwargs]
  by auto

text \<open>What a call that passes validation does, step by step.\<close>

lemma run_inference_config_raises:
  assumes "path_exists (fs w) video_path" and "path_exists (fs w) audio_path"
    and "create_config ev video_path audio_path kwargs = Inl e"
  shows "run_inference ev video_path audio_path output_path kwargs w = (Inl e, w)"
  using assms by (simp add: run_inference_def io_bind_def io_lift_def)

lemma run_inference_valid:
  assumes "path_exists (fs w) video_path" and "path_exists (fs w) audio_path"
    and cc: "create_config ev video_path audio_path kwargs = Inr (cfg, params)"
    and gv: "getitem params ''version'' = Inr version"
    and gb: "getitem params ''batch_size'' = Inr batch_size"
    and gf: "getitem params ''fps'' = Inr fps"
  shows "run_inference ev video_path audio_path output_path kwargs w =
           (case save_config ev cfg w of
              (Inl e, w1) \<Rightarrow> (Inl e, w1)
            | (Inr u, w1) \<Rightarrow>
                (case inference_steps ev (inference_cmd ev output_path version batch_size fps)
                        version output_path w1 of
                   (Inl e, w2) \<Rightarrow> (Inr False, w2)
                 | (Inr b, w2) \<Rightarrow> (Inr b, w2)))"
proof -
  from create_config_items [OF cc] obtain bb where
    bb: "getitem params ''bbox_shift'' = Inr bb" by auto
  show ?thesis
    using assms(1,2)
    by (simp add: cc bb gv gb gf run_inference_def io_bind_def io_lift_def io_try_def
          io_return_def split: prod.splits sum.splits)
qed

lemma inference_steps_cases:
  "inference_steps ev cmd version output_path w1 =
     (case clean_old_outputs ev (dirname output_path) w1 of
        (Inl e, w2) \<Rightarrow> (Inl e, w2)
      | (Inr u, w2) \<Rightarrow>
          (case run_command ev version cmd w2 of
             (Inl e, w3) \<Rightarrow> (Inl e, w3)
           | (Inr result, w3) \<Rightarrow> deliver_output ev output_path w3))"
  by (simp add: inference_steps_def io_bind_def split: prod.splits sum.splits)

lemma copy_exists: "copy ev src dst w = (Inr u, w1) \<Longrightarrow> path_exists (fs w1) dst"
  by (auto simp: copy_def write_file_def Let_def path_exists_def isdir_def AList.update_conv'
        split: if_splits option.splits node.splits)

text \<open>After a copy that returned, the size of the output path is read without error.\<close>

lemma deliver_output_cases:
  "deliver_output ev output_path w3 =
     (case collect_outputs (walk ev (fs w3) (dirname output_path)) of
        [] \<Rightarrow> (Inr False, w3)
      | first # rest \<Rightarrow>
          (case copy ev (pick_target first (first # rest)) output_path w3 of
             (Inl e, w4) \<Rightarrow> (Inl e, w4)
           | (Inr u, w4) \<Rightarrow> (Inr True, w4)))"
proof (cases "collect_outputs (walk ev (fs w3) (dirname output_path))")
  case Nil
  then show ?thesis
    by (simp add: deliver_output_def io_bind_def os_walk_def io_return_def)
next
  case (Cons first rest)
  obtain rc w4 where cp: "copy ev (pick_target first (first # rest)) output_path w3 = (rc, w4)"
    by (cases "copy ev (pick_target first (first # rest)) output_path w3")
  show ?thesis
  proof (cases rc)
    case (Inl e)
    with Cons cp show ?thesis
      by (simp add: deliver_output_def io_bind_def os_walk_def io_return_def)
  next
    case (Inr u)
    with cp have "path_exists (fs w4) output_path" by (simp add: copy_exists)
    then have "\<exists>n. getsize output_path w4 = (Inr n, w4)" by (simp add: getsize_def)
    with Cons cp Inr show ?thesis
      by (auto simp: deliver_output_def io_bind_def os_walk_def io_return_def)
  qed
qed

text \<open>
  The config is built and saved before the \<^verbatim>\<open>try\<close> block opens (lines 56 and 65 to 69
  against line 85). With a regular file named \<^verbatim>\<open>configs\<close> in the working directory, both
  inputs exist, \<^verbatim>\<open>os.makedirs("configs/inference", exist_ok=True)\<close> raises
  \<^verbatim>\<open>NotADirectoryError\<close>, and the call raises it instead of returning \<^verbatim>\<open>False\<close>.
\<close>

theorem run_inference_config_error_escapes:
  "path_exists (fs (world_of (inputs_fs @ [(''configs'', File ''x'')]))) ''/in/v.mp4''
   \<and> path_exists (fs (world_of (inputs_fs @ [(''configs'', File ''x'')]))) ''/in/a.wav''
   \<and> fst (run_inference quiet_env ''/in/v.mp4'' ''/in/a.wav'' ''/app/output/r.mp4'' []
              (world_of (inputs_fs @ [(''configs'', File ''x'')])))
       = Inl NotADirectoryError"
  by code_simp

text \<open>So does the error of \<^verbatim>\<open>OmegaConf.create\<close> on an input path that opens an
  interpolation and never closes it.\<close>

lemma run_inference_interpolation_error_escapes:
  "path_exists (fs (world_of (inputs_fs @ [(''/in/${x.mp4'', File ''V'')]))) ''/in/${x.mp4''
   \<and> fst (run_inference quiet_env ''/in/${x.mp4'' ''/in/a.wav'' ''/app/output/r.mp4'' []
              (world_of (inputs_fs @ [(''/in/${x.mp4'', File ''V'')])))
       = Inl GrammarParseError"
  by code_simp

text \<open>
  Claim C2, amended. For every call that passes input validation: an exception raised
  while the config is built (\<^verbatim>\<open>OmegaConf.create\<close> rejecting an interpolation) or while the
  config directory is made and the config saved (step 3) is not caught and reaches the
  caller, with the world as it is at the raise; the parameters then hold the version, the
  batch size and the frame rate; an exception raised by the cleanup of the output
  directory, by the subprocess call or by the copy (steps 4 to 7) is caught and the call
  returns \<^verbatim>\<open>False\<close>, again with the world as it is at the raise; the scan itself raises
  nothing, and the call returns \<^verbatim>\<open>False\<close> when it finds no media file and \<^verbatim>\<open>True\<close> after
  the copy.
\<close>

theorem run_inference_catches_after_config:
  assumes "path_exists (fs w) video_path" and "path_exists (fs w) audio_path"
  shows "case create_config ev video_path audio_path kwargs of
           Inl e \<Rightarrow>
             run_inference ev video_path audio_path output_path kwargs w = (Inl e, w)
         | Inr (cfg, params) \<Rightarrow>
             (\<exists>version batch_size fps.
                getitem params ''version'' = Inr version
              \<and> getitem params ''batch_size'' = Inr batch_size
              \<and> getitem params ''fps'' = Inr fps
              \<and> (case save_config ev cfg w of
                    (Inl e, w1) \<Rightarrow>
                      run_inference ev video_path audio_path output_path kwargs w = (Inl e, w1)
                  | (Inr u, w1) \<Rightarrow>
              (case clean_old_outputs ev (dirname output_path) w1 of
                    (Inl e, w2) \<Rightarrow>
                      run_inference ev video_path audio_path output_path kwargs w
                        = (Inr False, w2)
                  | (Inr u, w2) \<Rightarrow>
              (case run_command ev version
                      (inference_cmd ev output_path version batch_size fps) w2 of
                    (Inl e, w3) \<Rightarrow>
                      run_inference ev video_path audio_path output_path kwargs w
                        = (Inr False, w3)
                  | (Inr result, w3) \<Rightarrow>
              (case collect_outputs (walk ev (fs w3) (dirname output_path)) of
                    [] \<Rightarrow>
                      run_inference ev video_path audio_path output_path kwargs w
                        = (Inr False, w3)
                  | first # rest \<Rightarrow>
              (case copy ev (pick_target first (first # rest)) output_path w3 of
                    (Inl e, w4) \<Rightarrow>
                      run_inference ev video_path audio_path output_path kwargs w
                        = (Inr False, w4)
                  | (Inr u, w4) \<Rightarrow>
                      run_inference ev video_path audio_path output_path kwargs w
                        = (Inr True, w4)))))))"
proof (cases "create_config ev video_path audio_path kwargs")
  case (Inl e)
  with run_inference_config_raises [OF assms this] show ?thesis by simp
next
  case (Inr cp)
  obtain cfg params where cp: "cp = (cfg, params)" by (cases cp)
  with Inr have cc: "create_config ev video_path audio_path kwargs = Inr (cfg, params)"
    by simp
  from create_config_items [OF cc] obtain version batch_size fps where
    gv: "getitem params ''version'' = Inr version"
    and gb: "getitem params ''batch_size'' = Inr batch_size"
    and gf: "getitem params ''fps'' = Inr fps" by auto
  note run = run_inference_valid [OF assms cc gv gb gf, of output_path]
  have "case save_config ev cfg w of
          (Inl e, w1) \<Rightarrow>
            run_inference ev video_path audio_path output_path kwargs w = (Inl e, w1)
        | (Inr u, w1) \<Rightarrow>
    (case clean_old_outputs ev (dirname output_path) w1 of
          (Inl e, w2) \<Rightarrow>
            run_inference ev video_path audio_path output_path kwargs w = (Inr False, w2)
        | (Inr u, w2) \<Rightarrow>
    (case run_command ev version (inference_cmd ev output_path version batch_size fps) w2 of
          (Inl e, w3) \<Rightarrow>
            run_inference ev video_path audio_path output_path kwargs w = (Inr False, w3)
        | (Inr result, w3) \<Rightarrow>
    (case collect_outputs (walk ev (fs w3) (dirname output_path)) of
          [] \<Rightarrow>
            run_inference ev video_path audio_path output_path kwargs w = (Inr False, w3)
        | first # rest \<Rightarrow>
    (case copy ev (pick_target first (first # rest)) output_path w3 of
          (Inl e, w4) \<Rightarrow>
            run_inference ev video_path audio_path output_path kwargs w = (Inr False, w4)
        | (Inr u, w4) \<Rightarrow>
            run_inference ev video_path audio_path output_path kwargs w = (Inr True, w4)))))"
    unfolding run inference_steps_cases deliver_output_cases
    by (simp split: prod.splits sum.splits list.splits)
  with cc gv gb gf show ?thesis by auto
qed

text \<open>An instance: the output directory does not exist, listing it raises
  \<^verbatim>\<open>FileNotFoundError\<close> inside the \<^verbatim>\<open>try\<close> block, and the call returns \<^verbatim>\<open>False\<close>.\<close>

theorem run_inference_catches_after_config_witness:
  "path_exists (fs (world_of inputs_fs)) ''/in/v.mp4''
   \<and> path_exists (fs (world_of inputs_fs)) ''/in/a.wav''
   \<and> fst (save_config quiet_env
             [(''task1'',
               [(''video_path'', PStr ''/in/v.mp4''), (''audio_path'', PStr ''/in/a.wav''),
                (''bbox_shift'', PInt 0), (''result_name'', PStr ''lipsync_output.mp4'')])]
             (world_of inputs_fs)) = Inr ()
   \<and> fst (clean_old_outputs quiet_env ''/app/output''
             (snd (save_config quiet_env
                     [(''task1'',
                       [(''video_path'', PStr ''/in/v.mp4''), (''audio_path'', PStr ''/in/a.wav''),
                        (''bbox_shift'', PInt 0), (''result_name'', PStr ''lipsync_output.mp4'')])]
                     (world_of inputs_fs))))
       = Inl FileNotFoundError
   \<and> fst (run_inference quiet_env ''/in/v.mp4'' ''/in/a.wav'' ''/app/output/r.mp4'' []
              (world_of inputs_fs)) = Inr False"
proof -
  let ?w = "world_of inputs_fs"
  let ?cfg = "[(''task1'',
                 [(''video_path'', PStr ''/in/v.mp4''), (''audio_path'', PStr ''/in/a.wav''),
                  (''bbox_shift'', PInt 0), (''result_name'', PStr ''lipsync_output.mp4'')])]"
  have v: "path_exists (fs ?w) ''/in/v.mp4''" by code_simp
  have a: "path_exists (fs ?w) ''/in/a.wav''" by code_simp
  have cc: "create_config quiet_env ''/in/v.mp4'' ''/in/a.wav'' [] = Inr (?cfg, default_params)"
    by code_simp
  have d: "dirname ''/app/output/r.mp4'' = ''/app/output''" by code_simp
  have sc: "fst (save_config quiet_env ?cfg ?w) = Inr ()" by code_simp
  have cl: "fst (clean_old_outputs quiet_env ''/app/output'' (snd (save_config quiet_env ?cfg ?w)))
       = Inl FileNotFoundError" by code_simp
  from sc obtain w1 where sc': "save_config quiet_env ?cfg ?w = (Inr (), w1)"
    by (cases "save_config quiet_env ?cfg ?w") simp
  with cl obtain w2 where
    cl': "clean_old_outputs quiet_env ''/app/output'' w1 = (Inl FileNotFoundError, w2)"
    by (cases "clean_old_outputs quiet_env ''/app/output'' w1") simp
  from run_inference_catches_after_config
         [OF v a, where ev = quiet_env and kwargs = "[]" and output_path = "''/app/output/r.mp4''"]
  have "fst (run_inference quiet_env ''/in/v.mp4'' ''/in/a.wav'' ''/app/output/r.mp4'' [] ?w)
          = Inr False"
    by (auto simp: cc d sc' cl')
  then show ?thesis using v a sc cl by simp
qed

section \<open>Which file is delivered\<close>

lemma collect_outputsD:
  "x \<in> set (collect_outputs triples) \<Longrightarrow>
     \<exists>root dirs files file. (root, dirs, files) \<in> set triples \<and> file \<in> set files
        \<and> is_media file \<and> x = join root file"
  by (fastforce simp: collect_outputs_def)

lemma find_first_split:
  "find P xs = Some x \<Longrightarrow> \<exists>ys zs. xs = ys @ x # zs \<and> P x \<and> (\<forall>y \<in> set ys. \<not> P y)"
proof (induction xs)
  case Nil
  then show ?case by simp
next
  case (Cons a xs)
  show ?case
  proof (cases "P a")
    case True
    with Cons.prems have "a = x" by simp
    with True have "a # xs = [] @ x # xs \<and> P x \<and> (\<forall>y \<in> set []. \<not> P y)" by simp
    then show ?thesis by blast
  next
    case False
    with Cons.prems have "find P xs = Some x" by simp
    from Cons.IH [OF this] obtain ys zs where
      "xs = ys @ x # zs" "P x" "\<forall>y \<in> set ys. \<not> P y" by blast
    with False have "a # xs = (a # ys) @ x # zs \<and> P x \<and> (\<forall>y \<in> set (a # ys). \<not> P y)"
      by simp
    then show ?thesis by blast
  qed
qed

lemma pick_target_first:
  "\<exists>ys zs. first # rest = ys @ pick_target first (first # rest) # zs
      \<and> (\<forall>y \<in> set ys. \<not> has_marker y)
      \<and> ((\<exists>x \<in> set (first # rest). has_marker x) \<longrightarrow> has_marker (pick_target first (first # rest)))
      \<and> (\<not> has_marker (pick_target first (first # rest)) \<longrightarrow> ys = [])"
proof (cases "find has_marker (first # rest)")
  case None
  then have no: "\<forall>x \<in> set (first # rest). \<not> has_marker x"
    by (simp only: find_None_iff) blast
  have "pick_target first (first # rest) = first"
    using None by (simp add: pick_target_def)
  then have "first # rest = [] @ pick_target first (first # rest) # rest" by simp
  with no show ?thesis by (metis empty_iff list.set(1))
next
  case (Some t)
  then have t: "pick_target first (first # rest) = t" by (simp add: pick_target_def)
  from find_first_split [OF Some] obtain ys zs where
    "first # rest = ys @ t # zs" "has_marker t" "\<forall>y \<in> set ys. \<not> has_marker y" by blast
  then show ?thesis unfolding t by blast
qed

lemma copy_ok:
  assumes "copy ev src dst w = (Inr u, w1)"
  shows "\<exists>c. map_of (fs w) src = Some (File c)
     \<and> w1 = w\<lparr>fs := AList.update (if isdir (fs w) dst then join dst (basename src) else dst)
                     (File c) (fs w)\<rparr>"
  using assms
  by (auto simp: copy_def write_file_def Let_def split: if_splits option.splits node.splits)

lemma getsize_world: "getsize p w = (r, w') \<Longrightarrow> w' = w"
  by (auto simp: getsize_def split: if_splits)


lemma join_suffix: "\<exists>ps. join d x = ps @ x"
  by (simp add: join_def)

lemma sublist_app: "sublist s x \<Longrightarrow> sublist s (ps @ x)"
  by (auto simp: sublist_def) (metis append.assoc)

lemma has_marker_join: "has_marker x \<Longrightarrow> has_marker (join d x)"
proof -
  assume m: "has_marker x"
  obtain ps where j: "join d x = ps @ x" using join_suffix by blast
  from m show ?thesis unfolding has_marker_def j by (auto intro: sublist_app)
qed

lemma example_names:
  "is_media ''a.mp4''" "\<not> is_media ''b_temp.mp4''" "is_media ''lipsync_output.mp4''"
  "has_marker ''lipsync_output.mp4''"
  by code_simp+

lemma example_outputs:
  assumes "set fl = {''a.mp4'', ''b_temp.mp4'', ''lipsync_output.mp4''}"
  shows "set (collect_outputs [(d, ds, fl)]) = {join d ''a.mp4'', join d ''lipsync_output.mp4''}"
proof -
  have "{x \<in> set fl. is_media x} = {''a.mp4'', ''lipsync_output.mp4''}"
  proof (rule set_eqI)
    fix x
    show "x \<in> {x \<in> set fl. is_media x} \<longleftrightarrow> x \<in> {''a.mp4'', ''lipsync_output.mp4''}"
      using example_names(1,2,3) unfolding assms by blast
  qed
  moreover have "set (collect_outputs [(d, ds, fl)]) = join d ` {x \<in> set fl. is_media x}"
    by (simp add: collect_outputs_def)
  ultimately show ?thesis by simp
qed

lemma is_media_iff:
  "is_media file \<longleftrightarrow> (suffix ''.mp4'' file \<or> suffix ''.avi'' file) \<and> \<not> sublist ''temp'' file"
  by (simp add: is_media_def)


lemma deliver_output_steps:
  assumes "deliver_output ev output_path w = (Inr True, w')"
  shows "\<exists>first rest c.
      collect_outputs (walk ev (fs w) (dirname output_path)) = first # rest
    \<and> map_of (fs w) (pick_target first (first # rest)) = Some (File c)
    \<and> fs w' = AList.update
                 (if isdir (fs w) output_path
                  then join output_path (basename (pick_target first (first # rest)))
                  else output_path)
                 (File c) (fs w)"
proof -
  let ?outs = "collect_outputs (walk ev (fs w) (dirname output_path))"
  have d: "deliver_output ev output_path w =
     (case ?outs of [] \<Rightarrow> (Inr False, w)
      | first # rest \<Rightarrow>
          (case copy ev (pick_target first (first # rest)) output_path w of
             (Inl e, w1) \<Rightarrow> (Inl e, w1)
           | (Inr u, w1) \<Rightarrow>
               (case getsize output_path w1 of
                  (Inl e, w2) \<Rightarrow> (Inl e, w2)
                | (Inr sz, w2) \<Rightarrow> (Inr True, w2))))"
    by (simp add: deliver_output_def io_bind_def os_walk_def io_return_def
          split: list.splits)
  from assms d obtain first rest where outs: "?outs = first # rest"
    by (cases ?outs) auto
  from assms d outs obtain u w1 where cp: "copy ev (pick_target first (first # rest)) output_path w = (Inr u, w1)"
    by (cases "copy ev (pick_target first (first # rest)) output_path w")
       (auto split: sum.splits)
  from assms d outs cp obtain r where gs: "getsize output_path w1 = (r, w')"
    by (cases "getsize output_path w1") (auto split: sum.splits)
  from getsize_world [OF gs] have w': "w' = w1" .
  from copy_ok [OF cp] obtain c where
    "map_of (fs w) (pick_target first (first # rest)) = Some (File c)"
    "w1 = w\<lparr>fs := AList.update
               (if isdir (fs w) output_path
                then join output_path (basename (pick_target first (first # rest)))
                else output_path)
               (File c) (fs w)\<rparr>" by blast
  with outs w' show ?thesis by auto
qed

text \<open>
  The result markers are looked for in the full path of a found file (line 118 tests the
  joined path), not in its name. With the result directory \<^verbatim>\<open>/data/task1\<close> holding
  exactly \<^verbatim>\<open>a.mp4\<close>, \<^verbatim>\<open>b_temp.mp4\<close> and \<^verbatim>\<open>lipsync_output.mp4\<close> after the program
  ran, listed in that order, every found path contains \<^verbatim>\<open>task1\<close>; the first one is
  taken, and the file copied to the output path is \<^verbatim>\<open>a.mp4\<close>, whose name has no marker,
  although \<^verbatim>\<open>lipsync_output.mp4\<close> is there.
\<close>

theorem run_inference_marker_in_directory:
  "fst (run_inference task1_env ''/in/v.mp4'' ''/in/a.wav'' ''/data/task1/result.mp4'' []
          (world_of task1_fs)) = Inr True
   \<and> subfiles (fs (snd (run_inference task1_env ''/in/v.mp4'' ''/in/a.wav''
                          ''/data/task1/result.mp4'' [] (world_of task1_fs)))) ''/data/task1''
       = [''a.mp4'', ''b_temp.mp4'', ''lipsync_output.mp4'', ''result.mp4'']
   \<and> map_of (fs (snd (run_inference task1_env ''/in/v.mp4'' ''/in/a.wav''
                         ''/data/task1/result.mp4'' [] (world_of task1_fs))))
        ''/data/task1/lipsync_output.mp4'' = Some (File ''L'')
   \<and> map_of (fs (snd (run_inference task1_env ''/in/v.mp4'' ''/in/a.wav''
                         ''/data/task1/result.mp4'' [] (world_of task1_fs))))
        ''/data/task1/result.mp4'' = Some (File ''A'')
   \<and> \<not> has_marker ''a.mp4'' \<and> has_marker ''lipsync_output.mp4''"
  by code_simp

text \<open>
  Claim C3, amended. When the scan, choice and copy of lines 106 to 136 succeed, the file
  copied is a found file \<open>t\<close>: the join of a walked directory and one of its file names,
  the name ending in \<^verbatim>\<open>.mp4\<close> or \<^verbatim>\<open>.avi\<close> and not containing \<^verbatim>\<open>temp\<close>. It is the first
  found path, in scan order, whose full path contains a result marker
  (\<^verbatim>\<open>lipsync_output\<close> or \<^verbatim>\<open>task1\<close>) whenever some found path contains one, and the first
  found path otherwise. Its content is what the output path holds afterwards (inside the
  output path when that is a directory). In particular, when the walk yields one directory
  \<open>d\<close> holding exactly \<^verbatim>\<open>a.mp4\<close>, \<^verbatim>\<open>b_temp.mp4\<close> and \<^verbatim>\<open>lipsync_output.mp4\<close>, and the path
  of \<^verbatim>\<open>a.mp4\<close> in \<open>d\<close> contains no marker, the copied file is \<^verbatim>\<open>lipsync_output.mp4\<close>.
\<close>

theorem deliver_output_selection:
  assumes "deliver_output ev output_path w = (Inr True, w')"
  shows "\<exists>t c ys zs root dirs files file.
      collect_outputs (walk ev (fs w) (dirname output_path)) = ys @ t # zs
    \<and> (\<forall>y \<in> set ys. \<not> has_marker y)
    \<and> ((\<exists>x \<in> set (ys @ t # zs). has_marker x) \<longrightarrow> has_marker t)
    \<and> (\<not> has_marker t \<longrightarrow> ys = [])
    \<and> (root, dirs, files) \<in> set (walk ev (fs w) (dirname output_path))
    \<and> file \<in> set files \<and> t = join root file
    \<and> (suffix ''.mp4'' file \<or> suffix ''.avi'' file) \<and> \<not> sublist ''temp'' file
    \<and> map_of (fs w) t = Some (File c)
    \<and> fs w' = AList.update
                 (if isdir (fs w) output_path then join output_path (basename t) else output_path)
                 (File c) (fs w)
    \<and> (\<forall>d fl. walk ev (fs w) (dirname output_path) = [(d, [], fl)]
              \<and> set fl = {''a.mp4'', ''b_temp.mp4'', ''lipsync_output.mp4''}
              \<and> \<not> has_marker (join d ''a.mp4'')
           \<longrightarrow> t = join d ''lipsync_output.mp4'')"
proof -
  let ?tr = "walk ev (fs w) (dirname output_path)"
  let ?outs = "collect_outputs ?tr"
  from deliver_output_steps [OF assms] obtain first rest c where
    outs: "?outs = first # rest"
    and c: "map_of (fs w) (pick_target first (first # rest)) = Some (File c)"
    and w': "fs w' = AList.update
                 (if isdir (fs w) output_path
                  then join output_path (basename (pick_target first (first # rest)))
                  else output_path)
                 (File c) (fs w)" by blast
  define t where "t = pick_target first (first # rest)"
  from pick_target_first [of first rest] obtain ys zs where
    sp: "first # rest = ys @ t # zs"
    and before: "\<forall>y \<in> set ys. \<not> has_marker y"
    and mk: "(\<exists>x \<in> set (first # rest). has_marker x) \<longrightarrow> has_marker t"
    and nomk: "\<not> has_marker t \<longrightarrow> ys = []" unfolding t_def by blast
  have tin: "t \<in> set ?outs" unfolding outs sp by simp
  from collect_outputsD [OF tin] obtain root dirs files fname where
    tr: "(root, dirs, files) \<in> set ?tr" and fn: "fname \<in> set files"
    and med: "is_media fname" and tj: "t = join root fname"
    by blast
  have ex: "\<forall>d fl. ?tr = [(d, [], fl)]
              \<and> set fl = {''a.mp4'', ''b_temp.mp4'', ''lipsync_output.mp4''}
              \<and> \<not> has_marker (join d ''a.mp4'')
           \<longrightarrow> t = join d ''lipsync_output.mp4''"
  proof (intro allI impI, elim conjE)
    fix d fl
    assume one: "?tr = [(d, [], fl)]"
      and fl: "set fl = {''a.mp4'', ''b_temp.mp4'', ''lipsync_output.mp4''}"
      and nm: "\<not> has_marker (join d ''a.mp4'')"
    have so: "set ?outs = {join d ''a.mp4'', join d ''lipsync_output.mp4''}"
      unfolding one by (rule example_outputs [OF fl])
    have hm: "has_marker (join d ''lipsync_output.mp4'')"
      by (rule has_marker_join) (rule example_names)
    have "join d ''lipsync_output.mp4'' \<in> set (first # rest)"
      using so unfolding outs by blast
    with hm mk have ht: "has_marker t" by blast
    have "t = join d ''a.mp4'' \<or> t = join d ''lipsync_output.mp4''"
      using tin unfolding so by blast
    with ht nm show "t = join d ''lipsync_output.mp4''" by blast
  qed
  have mk': "(\<exists>x \<in> set (ys @ t # zs). has_marker x) \<longrightarrow> has_marker t"
    using mk unfolding sp .
  have m1: "suffix ''.mp4'' fname \<or> suffix ''.avi'' fname" and m2: "\<not> sublist ''temp'' fname"
    using med unfolding is_media_iff by blast+
  have o: "?outs = ys @ t # zs" unfolding outs sp ..
  have c': "map_of (fs w) t = Some (File c)" using c unfolding t_def .
  have w'': "fs w' = AList.update
                 (if isdir (fs w) output_path then join output_path (basename t) else output_path)
                 (File c) (fs w)" using w' unfolding t_def .
  from o before mk' nomk tr fn tj m1 m2 c' w'' ex show ?thesis by blast
qed

theorem deliver_output_selection_witness:
  "deliver_output quiet_env ''/app/output/lipsync_result.mp4'' (world_of results_fs)
     = (Inr True,
        world_of (results_fs @ [(''/app/output/lipsync_result.mp4'', File ''L'')]))
   \<and> walk quiet_env results_fs ''/app/output''
     = [(''/app/output'', [], [''a.mp4'', ''b_temp.mp4'', ''lipsync_output.mp4''])]
   \<and> (\<exists>t c ys zs root dirs files file.
        collect_outputs (walk quiet_env (fs (world_of results_fs))
                           (dirname ''/app/output/lipsync_result.mp4'')) = ys @ t # zs
      \<and> (\<forall>y \<in> set ys. \<not> has_marker y)
      \<and> has_marker t
      \<and> (root, dirs, files) \<in> set (walk quiet_env (fs (world_of results_fs))
                                      (dirname ''/app/output/lipsync_result.mp4''))
      \<and> file \<in> set files \<and> t = join root file
      \<and> \<not> sublist ''temp'' file
      \<and> map_of (fs (world_of results_fs)) t = Some (File c)
      \<and> t = ''/app/output/lipsync_output.mp4'')"
proof -
  let ?w = "world_of results_fs"
  let ?w' = "world_of (results_fs @ [(''/app/output/lipsync_result.mp4'', File ''L'')])"
  have run: "deliver_output quiet_env ''/app/output/lipsync_result.mp4'' ?w = (Inr True, ?w')"
    by code_simp
  have wk: "walk quiet_env results_fs ''/app/output''
     = [(''/app/output'', [], [''a.mp4'', ''b_temp.mp4'', ''lipsync_output.mp4''])]"
    by code_simp
  have wk': "walk quiet_env (fs ?w) (dirname ''/app/output/lipsync_result.mp4'')
     = [(''/app/output'', [], [''a.mp4'', ''b_temp.mp4'', ''lipsync_output.mp4''])]"
    by code_simp
  have fl: "set [''a.mp4'', ''b_temp.mp4'', ''lipsync_output.mp4'']
              = {''a.mp4'', ''b_temp.mp4'', ''lipsync_output.mp4''}" by simp
  have nm: "\<not> has_marker (join ''/app/output'' ''a.mp4'')" by code_simp
  have j: "join ''/app/output'' ''lipsync_output.mp4'' = ''/app/output/lipsync_output.mp4''"
    by code_simp
  have hm: "has_marker ''/app/output/lipsync_output.mp4''" by code_simp
  from deliver_output_selection [OF run] obtain t c ys zs root dirs files fname where
    a: "collect_outputs (walk quiet_env (fs ?w) (dirname ''/app/output/lipsync_result.mp4''))
          = ys @ t # zs"
    and b: "\<forall>y \<in> set ys. \<not> has_marker y"
    and tr: "(root, dirs, files) \<in> set (walk quiet_env (fs ?w)
                                         (dirname ''/app/output/lipsync_result.mp4''))"
    and fn: "fname \<in> set files" and tj: "t = join root fname"
    and nt: "\<not> sublist ''temp'' fname"
    and c: "map_of (fs ?w) t = Some (File c)"
    and ex: "\<forall>d fl. walk quiet_env (fs ?w) (dirname ''/app/output/lipsync_result.mp4'')
                      = [(d, [], fl)]
              \<and> set fl = {''a.mp4'', ''b_temp.mp4'', ''lipsync_output.mp4''}
              \<and> \<not> has_marker (join d ''a.mp4'')
           \<longrightarrow> t = join d ''lipsync_output.mp4''"
    by blast
  from ex wk' fl nm have "t = join ''/app/output'' ''lipsync_output.mp4''" by blast
  then have t: "t = ''/app/output/lipsync_output.mp4''" unfolding j .
  from hm t have ht: "has_marker t" by simp
  from a b ht tr fn tj nt c t have
    "\<exists>t c ys zs root dirs files file.
        collect_outputs (walk quiet_env (fs ?w)
                           (dirname ''/app/output/lipsync_result.mp4'')) = ys @ t # zs
      \<and> (\<forall>y \<in> set ys. \<not> has_marker y)
      \<and> has_marker t
      \<and> (root, dirs, files) \<in> set (walk quiet_env (fs ?w)
                                      (dirname ''/app/output/lipsync_result.mp4''))
      \<and> file \<in> set files \<and> t = join root file
      \<and> \<not> sublist ''temp'' file
      \<and> map_of (fs ?w) t = Some (File c)
      \<and> t = ''/app/output/lipsync_output.mp4''" by blast
  with run wk show ?thesis by blast
qed

section \<open>What the primitives change\<close>

text \<open>\<^verbatim>\<open>os.makedirs\<close> changes the world by appending directory entries, and nothing
  else.\<close>

definition only_adds_dirs :: "world \<Rightarrow> world \<Rightarrow> bool" where
  "only_adds_dirs w w' = (\<exists>ds. w' = w\<lparr>fs := fs w @ map (\<lambda>q. (q, Dir)) ds\<rparr>)"

lemma only_adds_dirs_refl: "only_adds_dirs w w"
  unfolding only_adds_dirs_def by (rule exI [of _ "[]"]) simp

lemma only_adds_dirs_trans:
  "only_adds_dirs w w1 \<Longrightarrow> only_adds_dirs w1 w2 \<Longrightarrow> only_adds_dirs w w2"
  unfolding only_adds_dirs_def
proof -
  assume "\<exists>ds. w1 = w\<lparr>fs := fs w @ map (\<lambda>q. (q, Dir)) ds\<rparr>"
    and "\<exists>ds. w2 = w1\<lparr>fs := fs w1 @ map (\<lambda>q. (q, Dir)) ds\<rparr>"
  then obtain ds1 ds2 where a: "w1 = w\<lparr>fs := fs w @ map (\<lambda>q. (q, Dir)) ds1\<rparr>"
    and b: "w2 = w1\<lparr>fs := fs w1 @ map (\<lambda>q. (q, Dir)) ds2\<rparr>" by blast
  have "w2 = w\<lparr>fs := fs w @ map (\<lambda>q. (q, Dir)) (ds1 @ ds2)\<rparr>"
    unfolding b a by simp
  then show "\<exists>ds. w2 = w\<lparr>fs := fs w @ map (\<lambda>q. (q, Dir)) ds\<rparr>" ..
qed

lemma mkdir_adds: "mkdir ev p w = (r, w') \<Longrightarrow> only_adds_dirs w w'"
proof -
  assume a: "mkdir ev p w = (r, w')"
  then have "w' = w \<or> w' = w\<lparr>fs := fs w @ map (\<lambda>q. (q, Dir)) [p]\<rparr>"
    by (auto simp: mkdir_def split: if_splits)
  then show ?thesis
    using only_adds_dirs_refl unfolding only_adds_dirs_def by blast
qed

lemma mkdir_exist_ok_adds: "mkdir_exist_ok ev p w = (r, w') \<Longrightarrow> only_adds_dirs w w'"
proof -
  assume a: "mkdir_exist_ok ev p w = (r, w')"
  obtain r0 w0 where m: "mkdir ev p w = (r0, w0)" by (cases "mkdir ev p w")
  from a m have "w' = w0"
    by (auto simp: mkdir_exist_ok_def io_try_def split: sum.splits if_splits)
  with mkdir_adds [OF m] show ?thesis by simp
qed

lemma makedirs_adds: "makedirs ev name w = (r, w') \<Longrightarrow> only_adds_dirs w w'"
proof (induction ev name w arbitrary: r w' rule: makedirs.induct)
  case (1 ev name w)
  show ?case
  proof (cases "split_head name \<noteq> [] \<and> split_tail name \<noteq> []
                  \<and> \<not> path_exists (fs w) (split_head name)")
    case False
    with "1.prems" have "mkdir_exist_ok ev name w = (r, w')"
      by (simp add: makedirs.simps [of ev name w])
    then show ?thesis by (rule mkdir_exist_ok_adds)
  next
    case True
    obtain r1 w1 where rec: "makedirs ev (split_head name) w = (r1, w1)"
      by (cases "makedirs ev (split_head name) w")
    from "1.IH" [OF True rec] have g1: "only_adds_dirs w w1" .
    from "1.prems" True rec have
      "w' = w1 \<or> mkdir_exist_ok ev name w1 = (r, w')"
      by (auto simp: makedirs.simps [of ev name w] split: sum.splits if_splits)
    then show ?thesis
    proof
      assume "w' = w1" with g1 show ?thesis by simp
    next
      assume "mkdir_exist_ok ev name w1 = (r, w')"
      from only_adds_dirs_trans [OF g1 mkdir_exist_ok_adds [OF this]] show ?thesis .
    qed
  qed
qed

section \<open>The output path after a failed run\<close>







lemma io_foreach_rel:
  assumes refl: "\<And>w. R w w"
    and trans: "\<And>w w1 w2. R w w1 \<Longrightarrow> R w1 w2 \<Longrightarrow> R w w2"
    and body: "\<And>x w r w'. x \<in> set xs \<Longrightarrow> body x w = (r, w') \<Longrightarrow> R w w'"
  shows "io_foreach xs body w = (r, w') \<Longrightarrow> R w w'"
  using body
proof (induction xs arbitrary: w r w')
  case Nil
  then show ?case using refl by (simp add: io_return_def)
next
  case (Cons x xs)
  obtain r1 w1 where b: "body x w = (r1, w1)" by (cases "body x w")
  have s1: "R w w1" using Cons.prems(2) [of x w r1 w1] b by simp
  show ?case
  proof (cases r1)
    case (Inl e)
    with Cons.prems(1) b have "w' = w1" by (simp add: io_bind_def)
    with s1 show ?thesis by simp
  next
    case (Inr u)
    with Cons.prems(1) b have "io_foreach xs body w1 = (r, w')" by (simp add: io_bind_def)
    moreover have "\<And>y w r w'. y \<in> set xs \<Longrightarrow> body y w = (r, w') \<Longrightarrow> R w w'"
    proof -
      fix y w r w'
      assume "y \<in> set xs" and "body y w = (r, w')"
      then show "R w w'" using Cons.prems(2) [of y w r w'] by simp
    qed
    ultimately have "R w1 w'" by (rule Cons.IH)
    with s1 show ?thesis by (rule trans)
  qed
qed

















section \<open>What the downloads change\<close>

text \<open>Three relations between the world before and after a step: every path that
  existed still exists; the ghost traces are the same; and the calls of
  \<^verbatim>\<open>download_file\<close> that were added are all for paths that did not exist before.\<close>

definition keeps_paths :: "world \<Rightarrow> world \<Rightarrow> bool" where
  "keeps_paths w w' = (\<forall>p. path_exists (fs w) p \<longrightarrow> path_exists (fs w') p)"

definition same_traces :: "world \<Rightarrow> world \<Rightarrow> bool" where
  "same_traces w w' = (fetched w' = fetched w \<and> procs w' = procs w)"

definition extends :: "world \<Rightarrow> world \<Rightarrow> bool" where
  "extends w w' = (keeps_paths w w' \<and> same_traces w w')"

lemma extends_refl: "extends w w"
  by (simp add: extends_def keeps_paths_def same_traces_def)

lemma extends_trans: "extends w w1 \<Longrightarrow> extends w1 w2 \<Longrightarrow> extends w w2"
  by (simp add: extends_def keeps_paths_def same_traces_def)

lemma only_adds_dirs_extends: "only_adds_dirs w w' \<Longrightarrow> extends w w'"
proof -
  assume "only_adds_dirs w w'"
  then obtain ds where w': "w' = w\<lparr>fs := fs w @ map (\<lambda>q. (q, Dir)) ds\<rparr>"
    unfolding only_adds_dirs_def by auto
  show ?thesis
    unfolding w' by (auto simp: extends_def keeps_paths_def same_traces_def path_exists_def)
qed

lemma write_file_extends: "write_file ev q c w = (r, w') \<Longrightarrow> extends w w'"
  by (auto simp: write_file_def extends_def keeps_paths_def same_traces_def path_exists_def
        AList.update_conv' split: if_splits)

lemma append_file_extends: "append_file q c w = (r, w') \<Longrightarrow> extends w w'"
  by (auto simp: append_file_def extends_def keeps_paths_def same_traces_def path_exists_def
        AList.update_conv' split: if_splits)

lemma write_chunks_extends:
  assumes "io_foreach chunks (\<lambda>chunk. if chunk \<noteq> [] then append_file q chunk
                                        else io_return ()) w = (r, w')"
  shows "extends w w'"
proof (rule io_foreach_rel [where R = extends, OF _ _ _ assms])
  show "\<And>w. extends w w" by (rule extends_refl)
  show "\<And>w w1 w2. extends w w1 \<Longrightarrow> extends w1 w2 \<Longrightarrow> extends w w2" by (rule extends_trans)
  fix x w r w'
  assume "(if x \<noteq> [] then append_file q x else io_return ()) w = (r, w')"
  then show "extends w w'"
    by (cases "x = []") (auto simp: io_return_def extends_refl dest: append_file_extends)
qed

text \<open>The try block of download_file.\<close>

lemma fetch_body_extends:
  assumes "(case http ev url of
              Refused \<Rightarrow> io_raise RequestException
            | Stream chunks broken \<Rightarrow>
                io_bind (write_file ev q []) (\<lambda>_.
                io_bind (io_foreach chunks (\<lambda>chunk.
                           if chunk \<noteq> [] then append_file q chunk else io_return ())) (\<lambda>_.
                if broken then io_raise RequestException else io_return True))) w = (r, w')"
  shows "extends w w'"
proof (cases "http ev url")
  case Refused
  with assms show ?thesis by (simp add: io_raise_def extends_refl)
next
  case (Stream chunks broken)
  obtain r1 w1 where wf: "write_file ev q [] w = (r1, w1)" by (cases "write_file ev q [] w")
  from write_file_extends [OF wf] have e1: "extends w w1" .
  show ?thesis
  proof (cases r1)
    case (Inl e)
    with assms Stream wf have "w' = w1" by (simp add: io_bind_def)
    with e1 show ?thesis by simp
  next
    case (Inr u)
    let ?loop = "io_foreach chunks (\<lambda>chunk. if chunk \<noteq> [] then append_file q chunk
                                             else io_return ())"
    obtain r2 w2 where lp: "?loop w1 = (r2, w2)" by (cases "?loop w1")
    from write_chunks_extends [OF lp] have e2: "extends w1 w2" .
    from assms Stream wf Inr lp have "w' = w2"
      by (cases r2) (auto simp: io_bind_def io_raise_def io_return_def split: if_splits)
    with extends_trans [OF e1 e2] show ?thesis by simp
  qed
qed

lemma download_file_effect:
  assumes "download_file ev url q d w = (r, w')"
  shows "keeps_paths w w' \<and> fetched w' = fetched w @ [(url, q)] \<and> procs w' = procs w"
proof -
  let ?w0 = "w\<lparr>fetched := fetched w @ [(url, q)]\<rparr>"
  let ?body = "case http ev url of
              Refused \<Rightarrow> io_raise RequestException
            | Stream chunks broken \<Rightarrow>
                io_bind (write_file ev q []) (\<lambda>_.
                io_bind (io_foreach chunks (\<lambda>chunk.
                           if chunk \<noteq> [] then append_file q chunk else io_return ())) (\<lambda>_.
                if broken then io_raise RequestException else io_return True))"
  obtain r1 w1 where mk: "makedirs ev (dirname q) ?w0 = (r1, w1)"
    by (cases "makedirs ev (dirname q) ?w0")
  from only_adds_dirs_extends [OF makedirs_adds [OF mk]] have e1: "extends ?w0 w1" .
  have "extends ?w0 w'"
  proof (cases r1)
    case (Inl e)
    with assms mk have "w' = w1" by (simp add: download_file_def io_bind_def)
    with e1 show ?thesis by simp
  next
    case (Inr u)
    obtain r2 w2 where b: "?body w1 = (r2, w2)" by (cases "?body w1")
    from fetch_body_extends [OF b] have e2: "extends w1 w2" .
    from assms mk Inr b have "w' = w2"
      by (cases r2) (simp_all add: download_file_def io_bind_def io_try_def io_return_def)
    with extends_trans [OF e1 e2] show ?thesis by simp
  qed
  then show ?thesis
    by (simp add: extends_def keeps_paths_def same_traces_def)
qed


definition fetches_absent :: "world \<Rightarrow> world \<Rightarrow> bool" where
  "fetches_absent w w' =
     (keeps_paths w w' \<and> procs w' = procs w
      \<and> (\<exists>new. fetched w' = fetched w @ new
                \<and> (\<forall>x \<in> set new. \<not> path_exists (fs w) (snd x))))"

lemma fetches_absent_refl: "fetches_absent w w"
  by (simp add: fetches_absent_def keeps_paths_def)

lemma fetches_absent_trans:
  assumes "fetches_absent w w1" and "fetches_absent w1 w2"
  shows "fetches_absent w w2"
proof -
  from assms obtain n1 n2 where
    k1: "keeps_paths w w1" and k2: "keeps_paths w1 w2"
    and p: "procs w1 = procs w" "procs w2 = procs w1"
    and f1: "fetched w1 = fetched w @ n1" and a1: "\<forall>x \<in> set n1. \<not> path_exists (fs w) (snd x)"
    and f2: "fetched w2 = fetched w1 @ n2" and a2: "\<forall>x \<in> set n2. \<not> path_exists (fs w1) (snd x)"
    unfolding fetches_absent_def by auto
  have a2': "\<forall>x \<in> set n2. \<not> path_exists (fs w) (snd x)"
    using a2 k1 unfolding keeps_paths_def by auto
  have "fetched w2 = fetched w @ (n1 @ n2)" using f1 f2 by simp
  moreover have "\<forall>x \<in> set (n1 @ n2). \<not> path_exists (fs w) (snd x)" using a1 a2' by auto
  moreover have "keeps_paths w w2" using k1 k2 unfolding keeps_paths_def by auto
  ultimately show ?thesis using p unfolding fetches_absent_def by auto
qed

lemma extends_fetches_absent: "extends w w' \<Longrightarrow> fetches_absent w w'"
  by (simp add: extends_def same_traces_def fetches_absent_def)

lemma download_file_fetches_absent:
  assumes "download_file ev url q d w = (r, w')" and "\<not> path_exists (fs w) q"
  shows "fetches_absent w w'"
  using download_file_effect [OF assms(1)] assms(2) by (simp add: fetches_absent_def)

lemma download_missing_fetches_absent:
  "download_missing ev arts s w = (r, w') \<Longrightarrow> fetches_absent w w'"
proof (induction arts arbitrary: s w)
  case Nil
  then show ?case by (simp add: io_return_def fetches_absent_refl)
next
  case (Cons art arts)
  obtain q u d where art: "art = (q, u, d)" by (cases art)
  show ?case
  proof (cases "path_exists (fs w) q")
    case True
    with Cons.prems art have "download_missing ev arts s w = (r, w')" by simp
    then show ?thesis by (rule Cons.IH)
  next
    case False
    obtain r1 w1 where df: "download_file ev u q d w = (r1, w1)"
      by (cases "download_file ev u q d w")
    from download_file_fetches_absent [OF df False] have s1: "fetches_absent w w1" .
    show ?thesis
    proof (cases r1)
      case (Inl e)
      with Cons.prems art False df have "w' = w1" by (simp add: io_bind_def)
      with s1 show ?thesis by simp
    next
      case (Inr ok)
      with Cons.prems art False df have
        "download_missing ev arts (if \<not> ok then False else s) w1 = (r, w')"
        by (simp add: io_bind_def)
      from fetches_absent_trans [OF s1 Cons.IH [OF this]] show ?thesis .
    qed
  qed
qed

lemma fetches_absent_skips:
  assumes "fetches_absent w w'" and "path_exists (fs w) p"
  shows "\<exists>new. fetched w' = fetched w @ new \<and> p \<notin> snd ` set new"
proof -
  from assms(1) obtain new where f: "fetched w' = fetched w @ new"
    and a: "\<forall>x \<in> set new. \<not> path_exists (fs w) (snd x)"
    unfolding fetches_absent_def by auto
  from a assms(2) have "p \<notin> snd ` set new" by auto
  with f show ?thesis by auto
qed



lemma makedirs_fetches_absent: "makedirs ev name w = (r, w') \<Longrightarrow> fetches_absent w w'"
  by (rule extends_fetches_absent [OF only_adds_dirs_extends [OF makedirs_adds]])

lemma makedirs_then_download_missing:
  assumes "io_bind (makedirs ev name) (\<lambda>_. download_missing ev arts True) w = (r, w')"
  shows "fetches_absent w w'"
proof -
  obtain r1 w1 where mk: "makedirs ev name w = (r1, w1)" by (cases "makedirs ev name w")
  from makedirs_fetches_absent [OF mk] have s1: "fetches_absent w w1" .
  show ?thesis
  proof (cases r1)
    case (Inl e)
    with assms mk have "w' = w1" by (simp add: io_bind_def)
    with s1 show ?thesis by simp
  next
    case (Inr u)
    with assms mk have "download_missing ev arts True w1 = (r, w')" by (simp add: io_bind_def)
    from fetches_absent_trans [OF s1 download_missing_fetches_absent [OF this]] show ?thesis .
  qed
qed

lemma provision_fetches_absent:
  "fetches_absent w (snd (manual_download_musetalk ev w))"
  "fetches_absent w (snd (download_other_models ev w))"
  "fetches_absent w (snd (setup_whisper_models ev w))"
proof -
  show "fetches_absent w (snd (manual_download_musetalk ev w))"
    unfolding manual_download_musetalk_def
    by (rule makedirs_then_download_missing) (rule prod.collapse [symmetric])
  show "fetches_absent w (snd (download_other_models ev w))"
    unfolding download_other_models_def
    by (rule download_missing_fetches_absent) (rule prod.collapse [symmetric])
  show "fetches_absent w (snd (setup_whisper_models ev w))"
    unfolding setup_whisper_models_def
    by (rule makedirs_then_download_missing) (rule prod.collapse [symmetric])
qed

lemma provision_skips_present:
  assumes "path_exists (fs w) p"
  shows "(\<exists>new. fetched (snd (manual_download_musetalk ev w)) = fetched w @ new
                \<and> p \<notin> snd ` set new)
       \<and> (\<exists>new. fetched (snd (download_other_models ev w)) = fetched w @ new
                \<and> p \<notin> snd ` set new)
       \<and> (\<exists>new. fetched (snd (setup_whisper_models ev w)) = fetched w @ new
                \<and> p \<notin> snd ` set new)"
  using fetches_absent_skips [OF provision_fetches_absent(1) assms]
    fetches_absent_skips [OF provision_fetches_absent(2) assms]
    fetches_absent_skips [OF provision_fetches_absent(3) assms]
  by simp

text \<open>
  Claim C7. A path that exists when one of the three per-file download functions starts
  (the manual MuseTalk fallback, the supporting models, the whisper files) is not handed
  to \<^verbatim>\<open>download_file\<close> by that function, whatever the file holds and whatever the
  network answers: the calls the function adds to the trace are for other paths. This
  holds for every path, so for the target of every artifact of the fixed lists, and so
  for a run that follows a partly completed one.
\<close>

theorem present_file_not_downloaded:
  assumes "path_exists (fs w) p"
  shows "(\<exists>new. fetched (snd (manual_download_musetalk ev w)) = fetched w @ new
                \<and> p \<notin> snd ` set new)
       \<and> (\<exists>new. fetched (snd (download_other_models ev w)) = fetched w @ new
                \<and> p \<notin> snd ` set new)
       \<and> (\<exists>new. fetched (snd (setup_whisper_models ev w)) = fetched w @ new
                \<and> p \<notin> snd ` set new)"
  using assms by (rule provision_skips_present)

text \<open>An instance: only the VAE config is absent, and only it is fetched.\<close>

theorem present_file_not_downloaded_witness:
  "path_exists (fs (world_of models_fs)) ''models/sd-vae/diffusion_pytorch_model.bin''
   \<and> fetched (snd (download_other_models serving_env (world_of models_fs)))
       = [(''https://huggingface.co/stabilityai/sd-vae-ft-mse/resolve/main/config.json'',
           ''models/sd-vae/config.json'')]
   \<and> (\<exists>new. fetched (snd (manual_download_musetalk serving_env (world_of models_fs)))
                = fetched (world_of models_fs) @ new
             \<and> ''models/sd-vae/diffusion_pytorch_model.bin'' \<notin> snd ` set new)
   \<and> (\<exists>new. fetched (snd (download_other_models serving_env (world_of models_fs)))
                = fetched (world_of models_fs) @ new
             \<and> ''models/sd-vae/diffusion_pytorch_model.bin'' \<notin> snd ` set new)
   \<and> (\<exists>new. fetched (snd (setup_whisper_models serving_env (world_of models_fs)))
                = fetched (world_of models_fs) @ new
             \<and> ''models/sd-vae/diffusion_pytorch_model.bin'' \<notin> snd ` set new)"
proof -
  have h: "path_exists (fs (world_of models_fs)) ''models/sd-vae/diffusion_pytorch_model.bin''"
    by code_simp
  have f: "fetched (snd (download_other_models serving_env (world_of models_fs)))
       = [(''https://huggingface.co/stabilityai/sd-vae-ft-mse/resolve/main/config.json'',
           ''models/sd-vae/config.json'')]"
    by code_simp
  from present_file_not_downloaded [OF h, of serving_env] h f show ?thesis by simp
qed

section \<open>A download that breaks\<close>

lemma write_chunks_content:
  assumes "map_of (fs w) q = Some (File old)"
  shows "\<exists>w'. io_foreach chunks (\<lambda>chunk. if chunk \<noteq> [] then append_file q chunk
                                           else io_return ()) w = (Inr (), w')
            \<and> map_of (fs w') q = Some (File (old @ concat chunks))"
  using assms
proof (induction chunks arbitrary: w old)
  case Nil
  then show ?case by (simp add: io_return_def)
next
  case (Cons chunk chunks)
  show ?case
  proof (cases "chunk = []")
    case True
    with Cons.IH [OF Cons.prems] show ?thesis by (simp add: io_bind_def io_return_def)
  next
    case False
    let ?w1 = "w\<lparr>fs := AList.update q (File (old @ chunk)) (fs w)\<rparr>"
    have ap: "append_file q chunk w = (Inr (), ?w1)"
      using Cons.prems by (simp add: append_file_def)
    have "map_of (fs ?w1) q = Some (File (old @ chunk))" by (simp add: AList.update_conv')
    from Cons.IH [OF this] False ap show ?thesis by (simp add: io_bind_def)
  qed
qed

lemma download_file_partial:
  assumes h: "http ev url = Stream chunks True"
    and mk: "makedirs ev (dirname filepath) (w\<lparr>fetched := fetched w @ [(url, filepath)]\<rparr>)
               = (Inr (), w1)"
    and op: "write_file ev filepath [] w1 = (Inr (), w2)"
  shows "\<exists>w'. download_file ev url filepath description w = (Inr False, w')
            \<and> map_of (fs w') filepath = Some (File (concat chunks))
            \<and> path_exists (fs w') filepath"
proof -
  from op have ne: "filepath \<noteq> []" and w2: "map_of (fs w2) filepath = Some (File [])"
    by (auto simp: write_file_def AList.update_conv' split: if_splits)
  from write_chunks_content [OF w2, of chunks] obtain w3 where
    lp: "io_foreach chunks (\<lambda>chunk. if chunk \<noteq> [] then append_file filepath chunk
                                       else io_return ()) w2 = (Inr (), w3)"
    and c: "map_of (fs w3) filepath = Some (File (concat chunks))" by auto
  have "download_file ev url filepath description w = (Inr False, w3)"
    using h mk op lp
    by (simp add: download_file_def io_bind_def io_try_def io_raise_def io_return_def)
  moreover have "path_exists (fs w3) filepath" using ne c by (simp add: path_exists_def)
  ultimately show ?thesis using c by simp
qed

text \<open>
  Claim C10. When the directory of the target is made, the target is opened for writing,
  and the response stream raises after some chunks were written, \<^verbatim>\<open>download_file\<close>
  returns \<^verbatim>\<open>False\<close> and leaves the partial file: the target exists and holds the chunks
  written. From that world on, each of the three per-file download functions, with any
  environment, finds the target present and does not call \<^verbatim>\<open>download_file\<close> for it
  again.
\<close>

theorem partial_download_never_retried:
  assumes h: "http ev url = Stream chunks True"
    and mk: "makedirs ev (dirname filepath) (w\<lparr>fetched := fetched w @ [(url, filepath)]\<rparr>)
               = (Inr (), w1)"
    and op: "write_file ev filepath [] w1 = (Inr (), w2)"
  shows "fst (download_file ev url filepath description w) = Inr False
       \<and> map_of (fs (snd (download_file ev url filepath description w))) filepath
           = Some (File (concat chunks))
       \<and> path_exists (fs (snd (download_file ev url filepath description w))) filepath
       \<and> (\<forall>ev'.
            (\<exists>new. fetched (snd (manual_download_musetalk ev'
                                    (snd (download_file ev url filepath description w))))
                      = fetched (snd (download_file ev url filepath description w)) @ new
                   \<and> filepath \<notin> snd ` set new)
          \<and> (\<exists>new. fetched (snd (download_other_models ev'
                                    (snd (download_file ev url filepath description w))))
                      = fetched (snd (download_file ev url filepath description w)) @ new
                   \<and> filepath \<notin> snd ` set new)
          \<and> (\<exists>new. fetched (snd (setup_whisper_models ev'
                                    (snd (download_file ev url filepath description w))))
                      = fetched (snd (download_file ev url filepath description w)) @ new
                   \<and> filepath \<notin> snd ` set new))"
proof -
  from download_file_partial [OF h mk op, of description] obtain w' where
    d: "download_file ev url filepath description w = (Inr False, w')"
    and c: "map_of (fs w') filepath = Some (File (concat chunks))"
    and e: "path_exists (fs w') filepath" by auto
  from provision_skips_present [OF e] d c e show ?thesis by simp
qed

text \<open>An instance: the model weights, on an empty disk, with a stream that breaks after
  \<^verbatim>\<open>ab\<close> and \<^verbatim>\<open>cd\<close>. The next manual download fetches the config only.\<close>

theorem partial_download_never_retried_witness:
  "http broken_env
     ''https://huggingface.co/TMElyralab/MuseTalk/resolve/main/musetalkV15/unet.pth''
     = Stream [''ab'', [], ''cd''] True
   \<and> fst (download_file broken_env
            ''https://huggingface.co/TMElyralab/MuseTalk/resolve/main/musetalkV15/unet.pth''
            ''models/musetalkV15/unet.pth'' ''MuseTalk 1.5 model weights (3.2GB)''
            (world_of [])) = Inr False
   \<and> map_of (fs (snd (download_file broken_env
            ''https://huggingface.co/TMElyralab/MuseTalk/resolve/main/musetalkV15/unet.pth''
            ''models/musetalkV15/unet.pth'' ''MuseTalk 1.5 model weights (3.2GB)''
            (world_of [])))) ''models/musetalkV15/unet.pth'' = Some (File ''abcd'')
   \<and> path_exists (fs (snd (download_file broken_env
            ''https://huggingface.co/TMElyralab/MuseTalk/resolve/main/musetalkV15/unet.pth''
            ''models/musetalkV15/unet.pth'' ''MuseTalk 1.5 model weights (3.2GB)''
            (world_of [])))) ''models/musetalkV15/unet.pth''
   \<and> map snd (fetched (snd (manual_download_musetalk serving_env
        (snd (download_file broken_env
            ''https://huggingface.co/TMElyralab/MuseTalk/resolve/main/musetalkV15/unet.pth''
            ''models/musetalkV15/unet.pth'' ''MuseTalk 1.5 model weights (3.2GB)''
            (world_of []))))))
       = [''models/musetalkV15/unet.pth'', ''models/musetalkV15/musetalk.json'']"
proof -
  let ?url = "''https://huggingface.co/TMElyralab/MuseTalk/resolve/main/musetalkV15/unet.pth''"
  let ?path = "''models/musetalkV15/unet.pth''"
  let ?w1 = "\<lparr>fs = [(''models'', Dir), (''models/musetalkV15'', Dir)], procs = [],
              fetched = [(?url, ?path)]\<rparr>"
  let ?w2 = "\<lparr>fs = [(''models'', Dir), (''models/musetalkV15'', Dir), (?path, File [])],
              procs = [], fetched = [(?url, ?path)]\<rparr>"
  have h: "http broken_env ?url = Stream [''ab'', [], ''cd''] True"
    by (simp add: broken_env_def)
  have mk: "makedirs broken_env (dirname ?path)
              ((world_of [])\<lparr>fetched := fetched (world_of []) @ [(?url, ?path)]\<rparr>)
              = (Inr (), ?w1)" by code_simp
  have op: "write_file broken_env ?path [] ?w1 = (Inr (), ?w2)" by code_simp
  have cc: "concat [''ab'', [], ''cd''] = ''abcd''" by simp
  have nx: "map snd (fetched (snd (manual_download_musetalk serving_env
        (snd (download_file broken_env ?url ?path ''MuseTalk 1.5 model weights (3.2GB)''
            (world_of []))))))
       = [''models/musetalkV15/unet.pth'', ''models/musetalkV15/musetalk.json'']"
    by code_simp
  from partial_download_never_retried
         [OF h mk op, of "''MuseTalk 1.5 model weights (3.2GB)''"]
  have "fst (download_file broken_env ?url ?path ''MuseTalk 1.5 model weights (3.2GB)''
               (world_of [])) = Inr False
      \<and> map_of (fs (snd (download_file broken_env ?url ?path
                            ''MuseTalk 1.5 model weights (3.2GB)'' (world_of [])))) ?path
          = Some (File ''abcd'')
      \<and> path_exists (fs (snd (download_file broken_env ?url ?path
                            ''MuseTalk 1.5 model weights (3.2GB)'' (world_of [])))) ?path"
    unfolding cc by (elim conjE) (intro conjI)
  with h nx show ?thesis by (intro conjI) (elim conjE, assumption)+
qed

section \<open>What the download script reports\<close>






lemma collect_missing_result:
  "collect_missing ps acc w = (Inr (acc @ filter (\<lambda>p. \<not> path_exists (fs w) p) ps), w)"
proof (induction ps arbitrary: acc)
  case Nil
  show ?case by (simp add: io_return_def)
next
  case (Cons p ps)
  show ?case
  proof (cases "path_exists (fs w) p")
    case True
    then obtain sz where "getsize p w = (Inr sz, w)" by (simp add: getsize_def)
    with True Cons.IH [of acc] show ?thesis by (simp add: io_bind_def)
  next
    case False
    with Cons.IH [of "acc @ [p]"] show ?thesis by simp
  qed
qed





section \<open>The exit status of the repair utility\<close>

text \<open>Which of the steps of \<^verbatim>\<open>main\<close> can raise. The xformers fix and the audit of the
  model files cannot.\<close>

lemma fix_xformers_returns: "\<exists>w'. fix_xformers_warnings ev w = (Inr (), w')"
  by (auto simp: fix_xformers_warnings_def io_try_def io_return_def
        split: prod.splits sum.splits)

lemma verify_model_files_returns:
  "verify_model_files w = (Inr (filter (\<lambda>p. \<not> path_exists (fs w) p) required_files = []), w)"
  by (simp add: verify_model_files_def io_bind_def collect_missing_result io_return_def)

text \<open>The GPU check raises when a PyTorch call raises something other than
  \<^verbatim>\<open>ImportError\<close>, and only then.\<close>

lemma check_gpu_setup_cases:
  "check_gpu_setup ev w = (if torch ev = TorchRaises then (Inl RuntimeError, w) else (Inr (), w))"
  by (cases "torch ev") (simp_all add: check_gpu_setup_def io_try_def io_raise_def io_return_def)

lemma io_foreach_returns:
  assumes "\<And>x w. x \<in> set xs \<Longrightarrow> \<exists>w'. body x w = (Inr (), w')"
  shows "\<exists>w'. io_foreach xs body w = (Inr (), w')"
  using assms
proof (induction xs arbitrary: w)
  case Nil
  show ?case by (simp add: io_return_def)
next
  case (Cons x xs)
  from Cons.prems [of x w] obtain w1 where b: "body x w = (Inr (), w1)" by auto
  have "\<exists>w'. io_foreach xs body w1 = (Inr (), w')"
    by (rule Cons.IH) (simp add: Cons.prems)
  with b show ?case by (simp add: io_bind_def)
qed

text \<open>An installation that fails with a non-zero exit is passed over; one whose program
  cannot be started is not.\<close>

lemma install_missing_dependencies_returns:
  assumes "\<forall>argv f. fst (spawn ev argv f) \<noteq> NotStarted"
  shows "\<exists>w'. install_missing_dependencies ev w = (Inr (), w')"
  unfolding install_missing_dependencies_def
proof (rule io_foreach_returns)
  fix dep and w :: world
  obtain pr f' where s: "spawn ev [sys_executable ev, ''-m'', ''pip'', ''install'', dep] (fs w)
      = (pr, f')"
    by (cases "spawn ev [sys_executable ev, ''-m'', ''pip'', ''install'', dep] (fs w)")
  with assms have "pr \<noteq> NotStarted" by (metis fst_conv)
  then obtain rc out err where "pr = Completed rc out err" by (cases pr) auto
  with s show "\<exists>w'. io_try
         (io_bind (subprocess_run ev True False []
                     [sys_executable ev, ''-m'', ''pip'', ''install'', dep]) (\<lambda>_. io_return ()))
         (\<lambda>e. if e = CalledProcessError then io_return () else io_raise e) w = (Inr (), w')"
    by (simp add: io_try_def io_bind_def subprocess_run_def io_return_def Let_def)
qed

text \<open>A copy that fails is passed over: the whisper fix raises only when one of its three
  directories cannot be made.\<close>

lemma copy_if_missing_returns: "\<exists>w'. copy_if_missing ev target_path src_file w = (Inr (), w')"
  by (auto simp: copy_if_missing_def io_try_def io_return_def split: prod.splits sum.splits)

lemma fix_whisper_paths_returns:
  assumes "io_foreach paths_to_create (\<lambda>path. makedirs ev path) w = (Inr (), w1)"
  shows "\<exists>w'. fix_whisper_paths ev w = (Inr (), w')"
proof -
  have "\<exists>w'. io_foreach paths_to_create (\<lambda>target_path.
               io_foreach (whisper_source_files (fs w1)) (\<lambda>src_file.
                 copy_if_missing ev target_path src_file)) w1 = (Inr (), w')"
    by (intro io_foreach_returns copy_if_missing_returns)
  with assms show ?thesis
    by (auto simp: fix_whisper_paths_def io_bind_def io_return_def)
qed

text \<open>
  The test script is written to \<^verbatim>\<open>/app/test_setup.py\<close> with no \<^verbatim>\<open>try\<close> around it
  (lines 238 to 241). In an empty filesystem there is no \<^verbatim>\<open>/app\<close>: every fix before it
  returns, \<^verbatim>\<open>open\<close> raises \<^verbatim>\<open>FileNotFoundError\<close>, the exception leaves \<^verbatim>\<open>main\<close> and the
  script exits with status 1.
\<close>

theorem troubleshooting_main_test_script_raises:
  "fst (verify_model_files
          (snd (fix_whisper_paths quiet_env
                  (snd (install_missing_dependencies quiet_env
                          (snd (create_missing_directories quiet_env (world_of []))))))))
     = Inr False
   \<and> fst (troubleshooting_main quiet_env ''import sys'' (world_of [])) = Inl FileNotFoundError
   \<and> troubleshooting_exit (troubleshooting_main quiet_env ''import sys'' (world_of [])) = 1"
  by code_simp

text \<open>
  Claim C9, amended. The script exits with status 0 or 1. It exits with status 0 exactly
  when the steps that can raise all return: the creation of the directories, the
  installation of the dependencies, the whisper fix, the GPU check and the writing of the
  test script. A failure inside a fix that the fix itself catches does not change the exit
  status: the xformers fix always returns; the audit of the model files always returns,
  whatever is missing; an installation that exits with a non-zero status is passed over
  (the installation step returns whenever every program can be started); a failed copy is
  passed over (the whisper fix returns whenever its directories can be made); and a missing
  PyTorch is passed over. But a directory that cannot be made, a program that cannot be
  started, a PyTorch call that raises, or a test script that cannot be written makes the
  exception leave \<^verbatim>\<open>main\<close>, and the exit status is 1.
\<close>

theorem troubleshooting_main_exit_status:
  "(troubleshooting_exit (troubleshooting_main ev test_script w) = 0) =
     (\<exists>w1 w2 w3 w4.
        create_missing_directories ev w = (Inr (), w1)
      \<and> install_missing_dependencies ev w1 = (Inr (), w2)
      \<and> fix_whisper_paths ev w2 = (Inr (), w3)
      \<and> fix_xformers_warnings ev w3 = (Inr (), w4)
      \<and> torch ev \<noteq> TorchRaises
      \<and> fst (create_test_script ev test_script w4) = Inr ())
   \<and> (troubleshooting_exit (troubleshooting_main ev test_script w) = 0
        \<or> troubleshooting_exit (troubleshooting_main ev test_script w) = 1)
   \<and> (\<exists>w'. fix_xformers_warnings ev w = (Inr (), w'))
   \<and> (\<exists>b. verify_model_files w = (Inr b, w))
   \<and> ((\<forall>argv f. fst (spawn ev argv f) \<noteq> NotStarted)
        \<longrightarrow> (\<exists>w'. install_missing_dependencies ev w = (Inr (), w')))
   \<and> ((\<exists>w1. io_foreach paths_to_create (\<lambda>path. makedirs ev path) w = (Inr (), w1))
        \<longrightarrow> (\<exists>w'. fix_whisper_paths ev w = (Inr (), w')))
   \<and> (torch ev \<noteq> TorchRaises \<longrightarrow> check_gpu_setup ev w = (Inr (), w))"
proof (intro conjI)
  show "(troubleshooting_exit (troubleshooting_main ev test_script w) = 0) =
     (\<exists>w1 w2 w3 w4.
        create_missing_directories ev w = (Inr (), w1)
      \<and> install_missing_dependencies ev w1 = (Inr (), w2)
      \<and> fix_whisper_paths ev w2 = (Inr (), w3)
      \<and> fix_xformers_warnings ev w3 = (Inr (), w4)
      \<and> torch ev \<noteq> TorchRaises
      \<and> fst (create_test_script ev test_script w4) = Inr ())"
  proof (cases "create_missing_directories ev w")
    case (Pair r1 w1)
    show ?thesis
    proof (cases r1)
      case (Inl e)
      with Pair show ?thesis
        by (simp add: troubleshooting_exit_def troubleshooting_main_def io_bind_def)
    next
      case r1: (Inr u1)
      show ?thesis
      proof (cases "install_missing_dependencies ev w1")
        case p2: (Pair r2 w2)
        show ?thesis
        proof (cases r2)
          case (Inl e)
          with Pair r1 p2 show ?thesis
            by (simp add: troubleshooting_exit_def troubleshooting_main_def io_bind_def)
        next
          case r2: (Inr u2)
          show ?thesis
          proof (cases "fix_whisper_paths ev w2")
            case p3: (Pair r3 w3)
            show ?thesis
            proof (cases r3)
              case (Inl e)
              with Pair r1 p2 r2 p3 show ?thesis
                by (simp add: troubleshooting_exit_def troubleshooting_main_def io_bind_def)
            next
              case r3: (Inr u3)
              from fix_xformers_returns obtain w4 where
                p4: "fix_xformers_warnings ev w3 = (Inr (), w4)" by blast
              obtain r7 w7 where p7: "create_test_script ev test_script w4 = (r7, w7)"
                by (cases "create_test_script ev test_script w4")
              from Pair r1 p2 r2 p3 r3 p4 p7 show ?thesis
                by (cases r7)
                   (simp_all add: troubleshooting_exit_def troubleshooting_main_def io_bind_def
                      check_gpu_setup_cases verify_model_files_returns io_return_def)
            qed
          qed
        qed
      qed
    qed
  qed
next
  show "troubleshooting_exit (troubleshooting_main ev test_script w) = 0
        \<or> troubleshooting_exit (troubleshooting_main ev test_script w) = 1"
    by (simp add: troubleshooting_exit_def split: sum.splits)
next
  show "\<exists>w'. fix_xformers_warnings ev w = (Inr (), w')" by (rule fix_xformers_returns)
next
  show "\<exists>b. verify_model_files w = (Inr b, w)" by (simp add: verify_model_files_returns)
next
  show "(\<forall>argv f. fst (spawn ev argv f) \<noteq> NotStarted)
        \<longrightarrow> (\<exists>w'. install_missing_dependencies ev w = (Inr (), w'))"
    by (simp add: install_missing_dependencies_returns)
next
  show "(\<exists>w1. io_foreach paths_to_create (\<lambda>path. makedirs ev path) w = (Inr (), w1))
        \<longrightarrow> (\<exists>w'. fix_whisper_paths ev w = (Inr (), w'))"
    using fix_whisper_paths_returns by blast
next
  show "torch ev \<noteq> TorchRaises \<longrightarrow> check_gpu_setup ev w = (Inr (), w)"
    by (simp add: check_gpu_setup_cases)
qed

text \<open>An instance: with \<^verbatim>\<open>/app\<close> in place, every installation failing with status 1, no
  PyTorch and no model file, the script exits with status 0.\<close>

theorem troubleshooting_main_exit_status_witness:
  "troubleshooting_exit
     (troubleshooting_main quiet_env ''import sys'' (world_of [(''/app'', Dir)])) = 0
   \<and> fst (verify_model_files (world_of [(''/app'', Dir)])) = Inr False
   \<and> fst (install_missing_dependencies quiet_env (world_of [(''/app'', Dir)])) = Inr ()
   \<and> procs (snd (install_missing_dependencies quiet_env (world_of [(''/app'', Dir)]))) \<noteq> []
   \<and> torch quiet_env = TorchMissing
   \<and> check_gpu_setup quiet_env (world_of [(''/app'', Dir)])
       = (Inr (), world_of [(''/app'', Dir)])"
proof -
  let ?w = "world_of [(''/app'', Dir)]"
  note ok = troubleshooting_main_exit_status [of quiet_env "''import sys''" ?w]
  have sp: "\<forall>argv f. fst (spawn quiet_env argv f) \<noteq> NotStarted"
    by (simp add: quiet_env_def)
  have t: "torch quiet_env = TorchMissing" by (simp add: quiet_env_def)
  from ok sp have "\<exists>w'. install_missing_dependencies quiet_env ?w = (Inr (), w')" by blast
  then have i: "fst (install_missing_dependencies quiet_env ?w) = Inr ()" by auto
  from ok t have g: "check_gpu_setup quiet_env ?w = (Inr (), ?w)" by simp
  have e: "troubleshooting_exit (troubleshooting_main quiet_env ''import sys'' ?w) = 0"
    by code_simp
  have v: "fst (verify_model_files ?w) = Inr False" by code_simp
  have p: "procs (snd (install_missing_dependencies quiet_env ?w)) \<noteq> []" by code_simp
  from e v i p t g show ?thesis by simp
qed

section \<open>What the whisper fix copies\<close>






























end
